theory Spec2Isabelle
  imports Complex_Main
begin

section \<open>The event-registration application: store, handles and caches\<close>

text \<open>
  The development embeds \<^verbatim>\<open>database.py\<close> (\<^verbatim>\<open>get_db\<close>, \<^verbatim>\<open>_init_db_settings\<close>) and the
  caching and writing parts of \<^verbatim>\<open>main.py\<close> (\<^verbatim>\<open>_get_events_cached\<close>,
  \<^verbatim>\<open>_get_my_events_cached\<close>, \<^verbatim>\<open>_invalidate_my_events_cache\<close>, \<^verbatim>\<open>register\<close>,
  \<^verbatim>\<open>register_event\<close>, \<^verbatim>\<open>events\<close>, \<^verbatim>\<open>my_events\<close>).

  Conventions of the embedding:
  \<^item> the module-level globals of both files, the committed contents of \<^verbatim>\<open>fest.db\<close> and
    the monotonic clock form one record \<open>world\<close>, passed through every function;
  \<^item> a Python exception is a value \<open>Inl e\<close> of the result, returned with the
    world as it was when the exception was raised;
  \<^item> what the outside does during a call (which store operation raises, how long it
    takes) is a parameter \<open>env\<close>; closing a handle is taken never to raise;
  \<^item> the tables exist (\<^verbatim>\<open>startup\<close> has run before any request); \<^verbatim>\<open>row_factory\<close> and
    \<^verbatim>\<open>tuple(r)\<close> only change the representation of a row and are left out;
  \<^item> execution is sequential: the three locks guard single reads and writes of the
    globals and have no effect on a sequential run, so they are not represented;
  \<^item> a Python float (a clock reading, a TTL setting) is the real number it denotes; the
    one float operation of the code, the subtraction in the two hit tests, is the
    binary64 one: the exact difference rounded to 53 significant bits, ties to even
    (\<open>float_sub\<close>); comparisons of floats are exact; infinities, NaN and overflow are
    outside the model;
  \<^item> leading underscores of Python names are dropped.
\<close>

subsection \<open>Tables\<close>

type_synonym user_row = "string \<times> string"
type_synonym event_row = "int \<times> string \<times> int"
type_synonym registration_row = "string \<times> int"
type_synonym my_event_row = "string \<times> int"

text \<open>The three tables created by \<^verbatim>\<open>startup\<close>; rows are kept in insertion order.\<close>

record database =
  users_tbl :: "user_row list"
  events_tbl :: "event_row list"
  registrations_tbl :: "registration_row list"

subsection \<open>Errors, store operations and the outside\<close>

datatype error =
    ZeroDivisionError
  | IntegrityError
  | OperationalError
  | OtherError string

datatype stmt =
    PragmaJournalModeWAL
  | PragmaSynchronousNormal
  | PragmaTempStoreMemory
  | PragmaBusyTimeout
  | SelectEvents
  | SelectMyEvents string
  | InsertUser string string
  | InsertRegistration string int

datatype action = Connect | Execute stmt | Commit | Close

text \<open>
  \<open>fault env a\<close> is the exception that the store raises when the call attempts \<open>a\<close>
  (\<open>None\<close>: the operation goes through); \<open>elapsed env a\<close> is the time the monotonic
  clock advances while \<open>a\<close> runs.
\<close>

record env =
  fault :: "action \<Rightarrow> error option"
  elapsed :: "action \<Rightarrow> real"

subsection \<open>Process state\<close>

text \<open>
  \<open>db_initialized\<close> is the global of \<^verbatim>\<open>database.py\<close>; the two TTL settings and the two
  caches are the globals of \<^verbatim>\<open>main.py\<close>. \<open>store\<close> is the committed content of the
  database file, \<open>clock\<close> the value \<^verbatim>\<open>time.monotonic()\<close> would return, and \<open>trace\<close> the
  store operations completed so far, oldest first.
\<close>

record world =
  db_initialized :: bool
  EVENTS_CACHE_TTL_SECONDS :: real
  events_cache_ts :: real
  events_cache_data :: "event_row list option"
  MY_EVENTS_CACHE_TTL_SECONDS :: real
  my_events_cache :: "string \<rightharpoonup> real \<times> my_event_row list"
  store :: database
  clock :: real
  trace :: "action list"

text \<open>
  A handle sees the committed store, or its own working copy once it has written
  without committing. \<open>busy_timeout\<close> is in milliseconds.
\<close>

record connection =
  uncommitted :: "database option"
  busy_timeout :: nat

datatype response =
    HTMLResponse string
  | RedirectResponse string nat
  | EventsTemplate "event_row list" string
  | MyEventsTemplate "my_event_row list" string

subsection \<open>Sequencing, exceptions, \<^verbatim>\<open>try\<close> blocks\<close>

type_synonym 'a io = "world \<Rightarrow> (error + 'a) \<times> world"

definition returns :: "'a \<Rightarrow> 'a io" where
  "returns x w = (Inr x, w)"

definition raises :: "error \<Rightarrow> 'a io" where
  "raises e w = (Inl e, w)"

definition and_then :: "'a io \<Rightarrow> ('a \<Rightarrow> 'b io) \<Rightarrow> 'b io" where
  "and_then m f w = (case m w of (Inl e, w') \<Rightarrow> (Inl e, w') | (Inr x, w') \<Rightarrow> f x w')"

text \<open>\<^verbatim>\<open>try: body finally: fin\<close>, for a \<open>fin\<close> that cannot raise.\<close>

definition try_finally :: "'a io \<Rightarrow> (world \<Rightarrow> world) \<Rightarrow> 'a io" where
  "try_finally body fin w = (case body w of (r, w') \<Rightarrow> (r, fin w'))"

text \<open>\<^verbatim>\<open>try: body except: handler\<close>: the bare \<^verbatim>\<open>except\<close> catches every exception.\<close>

definition try_except :: "'a io \<Rightarrow> (error \<Rightarrow> 'a io) \<Rightarrow> 'a io" where
  "try_except body handler w =
     (case body w of (Inl e, w') \<Rightarrow> handler e w' | (Inr x, w') \<Rightarrow> (Inr x, w'))"

subsection \<open>The store interface (\<^verbatim>\<open>sqlite3\<close>)\<close>

text \<open>
  One store operation: time passes; the operation raises what the outside dictates, or
  completes and is recorded.
\<close>

definition attempt :: "env \<Rightarrow> action \<Rightarrow> unit io" where
  "attempt env a w =
     (let w1 = w\<lparr>clock := clock w + elapsed env a\<rparr>
      in case fault env a of
           Some e \<Rightarrow> (Inl e, w1)
         | None \<Rightarrow> (Inr (), w1\<lparr>trace := trace w1 @ [a]\<rparr>))"

text \<open>\<^verbatim>\<open>sqlite3.connect("fest.db", timeout=30)\<close>\<close>

definition sqlite3_connect :: "env \<Rightarrow> connection io" where
  "sqlite3_connect env =
     and_then (attempt env Connect)
       (\<lambda>_. returns \<lparr>uncommitted = None, busy_timeout = 30000\<rparr>)"

definition db_view :: "connection \<Rightarrow> world \<Rightarrow> database" where
  "db_view c w = (case uncommitted c of None \<Rightarrow> store w | Some d \<Rightarrow> d)"

text \<open>\<^verbatim>\<open>conn.execute("PRAGMA ...")\<close>\<close>

definition execute_pragma :: "env \<Rightarrow> stmt \<Rightarrow> connection \<Rightarrow> connection io" where
  "execute_pragma env s c =
     and_then (attempt env (Execute s))
       (\<lambda>_. returns (if s = PragmaBusyTimeout then c\<lparr>busy_timeout := 3000\<rparr> else c))"

text \<open>\<^verbatim>\<open>db.execute("SELECT id, name, fee FROM events").fetchall()\<close>\<close>

definition select_events :: "env \<Rightarrow> connection \<Rightarrow> event_row list io" where
  "select_events env c =
     and_then (attempt env (Execute SelectEvents))
       (\<lambda>_ w. (Inr (events_tbl (db_view c w)), w))"

text \<open>
  The inner join of \<^verbatim>\<open>events\<close> and \<^verbatim>\<open>registrations\<close> on the event id, filtered by
  username, projected to name and fee: one row for each pair of a registration of the
  user and an event with that registration's event id.
\<close>

definition join_my_events :: "database \<Rightarrow> string \<Rightarrow> my_event_row list" where
  "join_my_events d username =
     concat (map (\<lambda>(un, rid).
                    if un = username
                    then map (\<lambda>(eid, name, fee). (name, fee))
                           (filter (\<lambda>(eid, name, fee). eid = rid) (events_tbl d))
                    else [])
               (registrations_tbl d))"

definition select_my_events :: "env \<Rightarrow> connection \<Rightarrow> string \<Rightarrow> my_event_row list io" where
  "select_my_events env c username =
     and_then (attempt env (Execute (SelectMyEvents username)))
       (\<lambda>_ w. (Inr (join_my_events (db_view c w) username), w))"

text \<open>
  \<^verbatim>\<open>db.execute("INSERT INTO users VALUES (?,?)", ...)\<close>: \<^verbatim>\<open>username\<close> is the primary key,
  so a second row with the same username is refused. The row stays uncommitted.
\<close>

definition execute_insert_user :: "env \<Rightarrow> string \<Rightarrow> string \<Rightarrow> connection \<Rightarrow> connection io" where
  "execute_insert_user env username password c w =
     (let d = db_view c w
      in if username \<in> set (map fst (users_tbl d))
         then (Inl IntegrityError, w\<lparr>clock := clock w + elapsed env (Execute (InsertUser username password))\<rparr>)
         else and_then (attempt env (Execute (InsertUser username password)))
                (\<lambda>_. returns (c\<lparr>uncommitted := Some (d\<lparr>users_tbl := users_tbl d @ [(username, password)]\<rparr>)\<rparr>)) w)"

text \<open>
  \<^verbatim>\<open>db.execute("INSERT INTO registrations VALUES (?,?)", ...)\<close>: the table has no key
  and no foreign key, so every row is accepted.
\<close>

definition execute_insert_registration :: "env \<Rightarrow> string \<Rightarrow> int \<Rightarrow> connection \<Rightarrow> connection io" where
  "execute_insert_registration env username event_id c w =
     (let d = db_view c w
      in and_then (attempt env (Execute (InsertRegistration username event_id)))
           (\<lambda>_. returns (c\<lparr>uncommitted :=
                    Some (d\<lparr>registrations_tbl := registrations_tbl d @ [(username, event_id)]\<rparr>)\<rparr>)) w)"

text \<open>\<^verbatim>\<open>db.commit()\<close>: the working copy becomes the committed store.\<close>

definition commit :: "env \<Rightarrow> connection \<Rightarrow> connection io" where
  "commit env c =
     and_then (attempt env Commit)
       (\<lambda>_ w. case uncommitted c of
                 None \<Rightarrow> (Inr c, w)
               | Some d \<Rightarrow> (Inr (c\<lparr>uncommitted := None\<rparr>), w\<lparr>store := d\<rparr>))"

text \<open>\<^verbatim>\<open>db.close()\<close>: uncommitted work of the handle is lost with it.\<close>

definition close :: "connection \<Rightarrow> world \<Rightarrow> world" where
  "close c w = w\<lparr>trace := trace w @ [Close]\<rparr>"

section \<open>\<^verbatim>\<open>database.py\<close>\<close>

definition init_db_settings :: "env \<Rightarrow> connection \<Rightarrow> connection io" where
  "init_db_settings env conn =
     and_then (execute_pragma env PragmaJournalModeWAL conn) (\<lambda>conn.
     and_then (execute_pragma env PragmaSynchronousNormal conn) (\<lambda>conn.
     execute_pragma env PragmaTempStoreMemory conn))"

text \<open>
  The flag is tested twice, as in the source (outside and inside the lock), and set only
  after \<^verbatim>\<open>_init_db_settings\<close> has returned.
\<close>

definition get_db :: "env \<Rightarrow> connection io" where
  "get_db env =
     and_then (sqlite3_connect env) (\<lambda>conn.
     and_then (\<lambda>w. if \<not> db_initialized w
                   then (if \<not> db_initialized w
                         then and_then (init_db_settings env conn)
                                (\<lambda>conn w. (Inr conn, w\<lparr>db_initialized := True\<rparr>)) w
                         else returns conn w)
                   else returns conn w) (\<lambda>conn.
     execute_pragma env PragmaBusyTimeout conn))"

section \<open>Float subtraction\<close>

text \<open>The number of binary digits of a natural number.\<close>

fun bit_length :: "nat \<Rightarrow> nat" where
  "bit_length n = (if n = 0 then 0 else Suc (bit_length (n div 2)))"

declare bit_length.simps [simp del]

text \<open>For \<open>x \<noteq> 0\<close>, the integer \<open>e\<close> with \<open>2\<^sup>e \<le> \<bar>x\<bar> < 2\<^sup>e\<^sup>+\<^sup>1\<close>.\<close>

definition exponent :: "real \<Rightarrow> int" where
  "exponent x =
     (if 1 \<le> \<bar>x\<bar> then int (bit_length (nat \<lfloor>\<bar>x\<bar>\<rfloor>)) - 1
      else - int (bit_length (nat (\<lceil>1 / \<bar>x\<bar>\<rceil> - 1))))"

text \<open>The nearest integer, a tie going to the even neighbour.\<close>

definition round_half_even :: "real \<Rightarrow> int" where
  "round_half_even y =
     (let f = \<lfloor>y\<rfloor>
      in if y - of_int f < 1 / 2 then f
         else if 1 / 2 < y - of_int f then f + 1
         else if even f then f else f + 1)"

text \<open>
  The nearest number with 53 significant bits: \<open>x\<close> is scaled so that its leading bit
  has weight \<open>2\<^sup>5\<^sup>2\<close>, rounded to an integer and scaled back.
\<close>

definition round_to_double :: "real \<Rightarrow> real" where
  "round_to_double x =
     (if x = 0 then 0
      else let e = exponent x
           in if 52 \<le> e
              then of_int (round_half_even (x / 2 ^ nat (e - 52))) * 2 ^ nat (e - 52)
              else of_int (round_half_even (x * 2 ^ nat (52 - e))) / 2 ^ nat (52 - e))"

text \<open>The Python expression \<^verbatim>\<open>a - b\<close> on floats.\<close>

definition float_sub :: "real \<Rightarrow> real \<Rightarrow> real" where
  "float_sub a b = round_to_double (a - b)"

section \<open>\<^verbatim>\<open>main.py\<close>\<close>

subsection \<open>The catalog cache\<close>

definition get_events_cached :: "env \<Rightarrow> connection \<Rightarrow> event_row list io" where
  "get_events_cached env db w =
     (if EVENTS_CACHE_TTL_SECONDS w \<le> 0 then select_events env db w
      else
        let now = clock w;
            refill = and_then (select_events env db)
                       (\<lambda>data w'. (Inr data, w'\<lparr>events_cache_data := Some data, events_cache_ts := now\<rparr>))
        in case events_cache_data w of
             Some data \<Rightarrow>
               if float_sub now (events_cache_ts w) < EVENTS_CACHE_TTL_SECONDS w then (Inr data, w)
               else refill w
           | None \<Rightarrow> refill w)"

subsection \<open>The per-user registrations cache\<close>

definition get_my_events_cached :: "env \<Rightarrow> connection \<Rightarrow> string \<Rightarrow> my_event_row list io" where
  "get_my_events_cached env db username w =
     (if MY_EVENTS_CACHE_TTL_SECONDS w \<le> 0 then select_my_events env db username w
      else
        let now = clock w;
            refill = and_then (select_my_events env db username)
                       (\<lambda>data w'. (Inr data, w'\<lparr>my_events_cache := (my_events_cache w')(username \<mapsto> (now, data))\<rparr>))
        in case my_events_cache w username of
             Some (ts, data) \<Rightarrow>
               if float_sub now ts < MY_EVENTS_CACHE_TTL_SECONDS w then (Inr data, w)
               else refill w
           | None \<Rightarrow> refill w)"

text \<open>\<^verbatim>\<open>_my_events_cache.pop(username, None)\<close>\<close>

definition invalidate_my_events_cache :: "string \<Rightarrow> world \<Rightarrow> world" where
  "invalidate_my_events_cache username w =
     w\<lparr>my_events_cache := (my_events_cache w)(username := None)\<rparr>"

subsection \<open>Request handlers\<close>

text \<open>
  \<^verbatim>\<open>POST /register\<close>. The inner block yields \<open>Some r\<close> when the handler returns \<open>r\<close> from
  inside the block and \<open>None\<close> when control falls through to the statement after it.
\<close>

definition register :: "env \<Rightarrow> string \<Rightarrow> string \<Rightarrow> response io" where
  "register env username password =
     and_then (get_db env) (\<lambda>db.
     and_then
       (try_finally
          (try_except
             (and_then (execute_insert_user env username password db) (\<lambda>db.
              and_then (commit env db) (\<lambda>db. returns None)))
             (\<lambda>e. returns (Some (HTMLResponse ''Username already exists. Try a different one.''))))
          (close db))
       (\<lambda>early. case early of
                  Some r \<Rightarrow> returns r
                | None \<Rightarrow> returns (RedirectResponse ''/login'' 302)))"

text \<open>\<^verbatim>\<open>GET /events\<close>, without the optional busy loop, which touches no state.\<close>

definition events :: "env \<Rightarrow> string \<Rightarrow> response io" where
  "events env user =
     and_then (get_db env) (\<lambda>db.
     and_then (try_finally (get_events_cached env db) (close db)) (\<lambda>rows.
     returns (EventsTemplate rows user)))"

text \<open>\<^verbatim>\<open>GET /register_event/{event_id}\<close>\<close>

definition register_event :: "env \<Rightarrow> int \<Rightarrow> string \<Rightarrow> response io" where
  "register_event env event_id user =
     and_then (\<lambda>w. if event_id = 404 then raises ZeroDivisionError w else returns () w) (\<lambda>_.
     and_then (get_db env) (\<lambda>db.
     and_then
       (try_finally
          (and_then (execute_insert_registration env user event_id db) (\<lambda>db.
           commit env db))
          (close db)) (\<lambda>_.
     and_then (\<lambda>w. returns () (invalidate_my_events_cache user w)) (\<lambda>_.
     returns (RedirectResponse (''/my-events?user='' @ user) 302)))))"

text \<open>\<^verbatim>\<open>GET /my-events\<close>, without the optional busy loop.\<close>

definition my_events :: "env \<Rightarrow> string \<Rightarrow> response io" where
  "my_events env user =
     and_then (get_db env) (\<lambda>db.
     and_then (try_finally (get_my_events_cached env db user) (close db)) (\<lambda>rows.
     returns (MyEventsTemplate rows user)))"

section \<open>Runs of the process\<close>

text \<open>
  What can happen to the process, one step at a time: time passes, a handle is acquired,
  one of the two cache functions is called on a handle, a request handler runs, or the
  invalidation is called directly. A run discards the values returned and keeps the state.
\<close>

datatype request =
    Sleep real
  | Acquire env
  | GetCatalog env connection
  | GetMyEvents env connection string
  | EventsPage env string
  | MyEventsPage env string
  | RegisterUser env string string
  | RegisterEvent env int string
  | Invalidate string

fun step :: "request \<Rightarrow> world \<Rightarrow> world" where
  "step (Sleep d) w = w\<lparr>clock := clock w + d\<rparr>"
| "step (Acquire env) w = snd (get_db env w)"
| "step (GetCatalog env db) w = snd (get_events_cached env db w)"
| "step (GetMyEvents env db username) w = snd (get_my_events_cached env db username w)"
| "step (EventsPage env user) w = snd (events env user w)"
| "step (MyEventsPage env user) w = snd (my_events env user w)"
| "step (RegisterUser env username password) w = snd (register env username password w)"
| "step (RegisterEvent env event_id user) w = snd (register_event env event_id user w)"
| "step (Invalidate username) w = invalidate_my_events_cache username w"

fun run :: "request list \<Rightarrow> world \<Rightarrow> world" where
  "run [] w = w"
| "run (r # rs) w = run rs (step r w)"

text \<open>The steps whose code calls \<^verbatim>\<open>_invalidate_my_events_cache\<close> for the given username.\<close>

fun invalidates :: "string \<Rightarrow> request \<Rightarrow> bool" where
  "invalidates u (Invalidate username) = (username = u)"
| "invalidates u (RegisterEvent env event_id user) = (user = u)"
| "invalidates u _ = False"

text \<open>The steps whose code calls \<^verbatim>\<open>_get_my_events_cached\<close> for the given username.\<close>

fun reads_my_events :: "string \<Rightarrow> request \<Rightarrow> bool" where
  "reads_my_events u (GetMyEvents env db username) = (username = u)"
| "reads_my_events u (MyEventsPage env user) = (user = u)"
| "reads_my_events u _ = False"

subsection \<open>Observations on the trace\<close>

fun is_tuning :: "action \<Rightarrow> bool" where
  "is_tuning (Execute PragmaJournalModeWAL) = True"
| "is_tuning (Execute PragmaSynchronousNormal) = True"
| "is_tuning (Execute PragmaTempStoreMemory) = True"
| "is_tuning _ = False"

text \<open>The tuning statements completed so far, in order.\<close>

definition tuning_applied :: "world \<Rightarrow> action list" where
  "tuning_applied w = filter is_tuning (trace w)"

text \<open>The number of completed catalog queries.\<close>

definition catalog_queries :: "world \<Rightarrow> nat" where
  "catalog_queries w = count_list (trace w) (Execute SelectEvents)"

text \<open>Handles opened and not yet closed.\<close>

definition open_handles :: "world \<Rightarrow> int" where
  "open_handles w = int (count_list (trace w) Connect) - int (count_list (trace w) Close)"

subsection \<open>Concrete states\<close>

text \<open>An outside in which no store operation raises and none takes time.\<close>

definition quiet :: env where
  "quiet = \<lparr>fault = (\<lambda>_. None), elapsed = (\<lambda>_. 0)\<rparr>"

text \<open>An outside in which the given operation raises the given error.\<close>

definition failing :: "action \<Rightarrow> error \<Rightarrow> env" where
  "failing a e = \<lparr>fault = (\<lambda>b. if b = a then Some e else None), elapsed = (\<lambda>_. 0)\<rparr>"

text \<open>An outside in which every store operation takes one second.\<close>

definition slow :: env where
  "slow = \<lparr>fault = (\<lambda>_. None), elapsed = (\<lambda>_. 1)\<rparr>"

text \<open>
  The state of a process right after both modules are loaded, for given TTL settings and
  store contents: flag unset, catalog slot empty with timestamp \<open>0.0\<close>, no per-user entry.
\<close>

definition process_start :: "real \<Rightarrow> real \<Rightarrow> database \<Rightarrow> world" where
  "process_start events_ttl my_events_ttl d =
     \<lparr>db_initialized = False,
      EVENTS_CACHE_TTL_SECONDS = events_ttl,
      events_cache_ts = 0,
      events_cache_data = None,
      MY_EVENTS_CACHE_TTL_SECONDS = my_events_ttl,
      my_events_cache = Map.empty,
      store = d,
      clock = 0,
      trace = []\<rparr>"

definition empty_db :: database where
  "empty_db = \<lparr>users_tbl = [], events_tbl = [], registrations_tbl = []\<rparr>"

definition fest_db :: database where
  "fest_db = \<lparr>users_tbl = [(''alice'', ''pw'')],
              events_tbl = [(5, ''Hackathon'', 100), (6, ''Quiz'', 50)],
              registrations_tbl = [(''alice'', 6)]\<rparr>"

definition fresh_handle :: connection where
  "fresh_handle = \<lparr>uncommitted = None, busy_timeout = 3000\<rparr>"

text \<open>A process in which the registrations of \<open>alice\<close> are cached and nobody else's.\<close>

definition alice_cached :: world where
  "alice_cached =
     (process_start 2 60 fest_db)\<lparr>my_events_cache := [''alice'' \<mapsto> (0, [(''Quiz'', 50)])]\<rparr>"

text \<open>
  A process that filled its catalog slot from an empty events table at time \<open>0\<close>; events
  were then added to the store from outside, and the clock now reads \<open>1.5\<close>.
\<close>

definition catalog_cached_then_event_added :: world where
  "catalog_cached_then_event_added =
     (snd (get_events_cached quiet fresh_handle (process_start 2 0 empty_db)))
       \<lparr>store := fest_db, clock := 3/2\<rparr>"

section \<open>Properties\<close>

subsection \<open>Event id 404\<close>

text \<open>
  Claim C9. For the event id 404 the event-registration handler raises
  \<^verbatim>\<open>ZeroDivisionError\<close> and leaves the whole state as it was, for every username and
  whatever the outside would do: no handle is acquired (the trace is unchanged), no row
  is inserted (the store is unchanged) and the per-user cache is not invalidated.
\<close>

theorem register_event_404_raises:
  "register_event env 404 user w = (Inl ZeroDivisionError, w)"
  by (simp add: register_event_def and_then_def raises_def)

subsection \<open>Invalidation\<close>

text \<open>
  Claim C7. \<^verbatim>\<open>_invalidate_my_events_cache(u)\<close> is a total function of the state: it
  removes the entry of \<open>u\<close> from the per-user mapping, leaves the entry of every other
  username as it was, creates no entry, and changes nothing at all when \<open>u\<close> has no entry.
\<close>

theorem invalidate_removes_or_noop:
  "u \<notin> dom (my_events_cache (invalidate_my_events_cache u w))
   \<and> dom (my_events_cache (invalidate_my_events_cache u w)) = dom (my_events_cache w) - {u}
   \<and> (\<forall>v. v \<noteq> u \<longrightarrow> my_events_cache (invalidate_my_events_cache u w) v = my_events_cache w v)
   \<and> (u \<notin> dom (my_events_cache w) \<longrightarrow> invalidate_my_events_cache u w = w)"
  by (auto simp add: invalidate_my_events_cache_def domIff)

theorem invalidate_removes_or_noop_witness:
  "''bob'' \<notin> dom (my_events_cache alice_cached)
   \<and> invalidate_my_events_cache ''bob'' alice_cached = alice_cached
   \<and> ''alice'' \<noteq> ''bob''
   \<and> my_events_cache (invalidate_my_events_cache ''bob'' alice_cached) ''alice'' = Some (0, [(''Quiz'', 50)])
   \<and> dom (my_events_cache (invalidate_my_events_cache ''alice'' alice_cached)) = {}"
proof -
  have a: "''bob'' \<notin> dom (my_events_cache alice_cached)"
    by (simp add: alice_cached_def process_start_def)
  have b: "''alice'' \<noteq> ''bob''" by simp
  have c: "my_events_cache alice_cached ''alice'' = Some (0, [(''Quiz'', 50)])"
    by (simp add: alice_cached_def process_start_def)
  have d: "dom (my_events_cache alice_cached) = {''alice''}"
    by (simp add: alice_cached_def process_start_def)
  from invalidate_removes_or_noop [of "''bob''" alice_cached] a b c
    invalidate_removes_or_noop [of "''alice''" alice_cached] d
  show ?thesis by simp
qed

subsection \<open>Caching disabled\<close>

text \<open>
  Claim C5. When the TTL setting of a cache is \<open>\<le> 0\<close>, every call of its read function
  goes to the store: it raises what the query raises, or returns the rows the handle
  reads from the store and records one query; in both cases the catalog slot, its
  timestamp and the per-user mapping are as before the call.
\<close>

theorem ttl_nonpositive_disables_caching:
  "(EVENTS_CACHE_TTL_SECONDS w \<le> 0 \<longrightarrow>
      events_cache_data (snd (get_events_cached env db w)) = events_cache_data w
      \<and> events_cache_ts (snd (get_events_cached env db w)) = events_cache_ts w
      \<and> my_events_cache (snd (get_events_cached env db w)) = my_events_cache w
      \<and> (\<forall>e. fault env (Execute SelectEvents) = Some e \<longrightarrow> fst (get_events_cached env db w) = Inl e)
      \<and> (fault env (Execute SelectEvents) = None \<longrightarrow>
           fst (get_events_cached env db w) = Inr (events_tbl (db_view db w))
           \<and> trace (snd (get_events_cached env db w)) = trace w @ [Execute SelectEvents]))
   \<and> (MY_EVENTS_CACHE_TTL_SECONDS w \<le> 0 \<longrightarrow>
      events_cache_data (snd (get_my_events_cached env db u w)) = events_cache_data w
      \<and> events_cache_ts (snd (get_my_events_cached env db u w)) = events_cache_ts w
      \<and> my_events_cache (snd (get_my_events_cached env db u w)) = my_events_cache w
      \<and> (\<forall>e. fault env (Execute (SelectMyEvents u)) = Some e \<longrightarrow> fst (get_my_events_cached env db u w) = Inl e)
      \<and> (fault env (Execute (SelectMyEvents u)) = None \<longrightarrow>
           fst (get_my_events_cached env db u w) = Inr (join_my_events (db_view db w) u)
           \<and> trace (snd (get_my_events_cached env db u w)) = trace w @ [Execute (SelectMyEvents u)]))"
  by (auto simp: get_events_cached_def get_my_events_cached_def select_events_def select_my_events_def
        and_then_def attempt_def Let_def db_view_def split: option.splits)

theorem ttl_nonpositive_disables_caching_witness:
  "EVENTS_CACHE_TTL_SECONDS (process_start 0 0 fest_db) \<le> 0
   \<and> MY_EVENTS_CACHE_TTL_SECONDS (process_start 0 0 fest_db) \<le> 0
   \<and> fault quiet (Execute SelectEvents) = None
   \<and> fault quiet (Execute (SelectMyEvents ''alice'')) = None
   \<and> fst (get_events_cached quiet fresh_handle (process_start 0 0 fest_db))
       = Inr [(5, ''Hackathon'', 100), (6, ''Quiz'', 50)]
   \<and> events_cache_data (snd (get_events_cached quiet fresh_handle (process_start 0 0 fest_db))) = None
   \<and> fst (get_my_events_cached quiet fresh_handle ''alice'' (process_start 0 0 fest_db))
       = Inr [(''Quiz'', 50)]
   \<and> my_events_cache (snd (get_my_events_cached quiet fresh_handle ''alice'' (process_start 0 0 fest_db)))
       = Map.empty"
proof -
  have a: "EVENTS_CACHE_TTL_SECONDS (process_start 0 0 fest_db) \<le> 0"
    and b: "MY_EVENTS_CACHE_TTL_SECONDS (process_start 0 0 fest_db) \<le> 0"
    by (simp_all add: process_start_def)
  have c: "fault quiet (Execute SelectEvents) = None"
    and d: "fault quiet (Execute (SelectMyEvents ''alice'')) = None"
    by (simp_all add: quiet_def)
  have e: "events_tbl (db_view fresh_handle (process_start 0 0 fest_db))
             = [(5, ''Hackathon'', 100), (6, ''Quiz'', 50)]"
    by (simp add: db_view_def fresh_handle_def process_start_def fest_db_def)
  have f: "join_my_events (db_view fresh_handle (process_start 0 0 fest_db)) ''alice'' = [(''Quiz'', 50)]"
    by (simp add: join_my_events_def db_view_def fresh_handle_def process_start_def fest_db_def)
  have g: "events_cache_data (process_start 0 0 fest_db) = None"
    "my_events_cache (process_start 0 0 fest_db) = Map.empty"
    by (simp_all add: process_start_def)
  from ttl_nonpositive_disables_caching
         [of "process_start 0 0 fest_db" quiet fresh_handle "''alice''"] a b c d e f g
  show ?thesis by simp
qed

subsection \<open>Float subtraction: the exponent, the rounding, some readings\<close>

lemmas float_defs = float_sub_def round_to_double_def round_half_even_def exponent_def
  bit_length.simps

lemma bit_length_bounds:
  "0 < n \<Longrightarrow> 2 ^ (bit_length n - 1) \<le> n \<and> n < 2 ^ bit_length n"
proof (induction n rule: bit_length.induct)
  case (1 n)
  show ?case
  proof (cases "n div 2 = 0")
    case True
    with "1.prems" have "n = 1" by (simp add: div_eq_0_iff) 
    then show ?thesis by (simp add: bit_length.simps)
  next
    case False
    with "1.IH" "1.prems" have ih: "2 ^ (bit_length (n div 2) - 1) \<le> n div 2"
      "n div 2 < 2 ^ bit_length (n div 2)" by auto
    from False have pos: "0 < bit_length (n div 2)" by (subst bit_length.simps) simp
    have eq: "bit_length n = Suc (bit_length (n div 2))"
      using "1.prems" by (subst bit_length.simps) simp
    from pos obtain k where k: "bit_length (n div 2) = Suc k" by (cases "bit_length (n div 2)") auto
    from ih k have "2 ^ k \<le> n div 2" "n div 2 < 2 ^ Suc k" by simp_all
    moreover have "2 * (n div 2) \<le> n \<and> n < 2 * (n div 2) + 2" by presburger
    ultimately have "2 ^ Suc k \<le> n" "n < 2 ^ Suc (Suc k)" by simp_all
    with eq k show ?thesis by simp
  qed
qed


lemma exponent_bounds:
  assumes "x \<noteq> 0"
  shows "power_int 2 (exponent x) \<le> \<bar>x\<bar> \<and> \<bar>x\<bar> < power_int 2 (exponent x + 1)"
proof (cases "1 \<le> \<bar>x\<bar>")
  case True
  define n where "n = nat \<lfloor>\<bar>x\<bar>\<rfloor>"
  from True have "0 < \<lfloor>\<bar>x\<bar>\<rfloor>" by linarith
  then have rn: "real n = of_int \<lfloor>\<bar>x\<bar>\<rfloor>" and n0: "0 < n" by (simp_all add: n_def)
  have n: "real n \<le> \<bar>x\<bar>" "\<bar>x\<bar> < real n + 1"
    unfolding rn by linarith+
  from bit_length_bounds [OF n0] obtain k where k: "bit_length n = Suc k"
    and lo: "2 ^ k \<le> n" and hi: "Suc n \<le> 2 ^ Suc k"
    by (cases "bit_length n") auto
  from True k have e: "exponent x = int k" by (simp add: exponent_def n_def)
  from of_nat_mono [OF lo, where 'a = real] have l: "(2::real) ^ k \<le> real n" by simp
  from of_nat_mono [OF hi, where 'a = real] have h: "real n + 1 \<le> 2 ^ Suc k" by simp
  have p: "power_int (2::real) (int k) = 2 ^ k" by (rule power_int_of_nat)
  have "int k + 1 = int (Suc k)" by simp
  then have q: "power_int (2::real) (int k + 1) = 2 ^ Suc k" by (simp only: power_int_of_nat)
  from l h n show ?thesis unfolding e p q by linarith
next
  case False
  define y where "y = 1 / \<bar>x\<bar>"
  define m where "m = nat (\<lceil>y\<rceil> - 1)"
  from assms have xpos: "0 < \<bar>x\<bar>" by simp
  with False have y: "1 < y" by (simp add: y_def)
  then have "0 < \<lceil>y\<rceil> - 1" by linarith
  then have rm: "real m = of_int \<lceil>y\<rceil> - 1" and m0: "0 < m" by (simp_all add: m_def)
  have m: "real m < y" "y \<le> real m + 1"
    unfolding rm by linarith+
  from bit_length_bounds [OF m0] obtain k where k: "bit_length m = Suc k"
    and lo: "2 ^ k \<le> m" and hi: "Suc m \<le> 2 ^ Suc k"
    by (cases "bit_length m") auto
  from False k have e: "exponent x = - int (Suc k)" by (simp add: exponent_def m_def y_def)
  from of_nat_mono [OF lo, where 'a = real] have "(2::real) ^ k \<le> real m" by simp
  with m have l: "(2::real) ^ k < y" by linarith
  from of_nat_mono [OF hi, where 'a = real] have "real m + 1 \<le> 2 ^ Suc k" by simp
  with m have h: "y \<le> 2 ^ Suc k" by linarith
  have xy: "\<bar>x\<bar> = 1 / y" using xpos by (simp add: y_def)
  have p: "power_int (2::real) (- int (Suc k)) = 1 / 2 ^ Suc k"
    by (simp only: power_int_minus power_int_of_nat inverse_eq_divide)
  have "- int (Suc k) + 1 = - int k" by simp
  then have q: "power_int (2::real) (- int (Suc k) + 1) = 1 / 2 ^ k"
    by (simp only: power_int_minus power_int_of_nat inverse_eq_divide)
  have ypos: "0 < y" using y by linarith
  have a: "1 / 2 ^ Suc k \<le> 1 / y"
    using h ypos by (intro divide_left_mono) simp_all
  have b: "1 / y < 1 / (2::real) ^ k"
    using l ypos by (intro divide_strict_left_mono) simp_all
  from a b show ?thesis unfolding e xy p q by simp
qed

lemma round_half_even_near: "\<bar>real_of_int (round_half_even y) - y\<bar> \<le> 1 / 2"
  by (simp add: round_half_even_def Let_def)

lemma round_to_double_ties_and_signs:
  "round_to_double (2 ^ 53 + 1) = 2 ^ 53"
  "round_to_double (2 ^ 53 + 3) = 2 ^ 53 + 4"
  "round_to_double (- (2 ^ 53 + 1)) = - (2 ^ 53)"
  "round_to_double (1 - 1 / 2 ^ 54) = 1"
  "round_to_double (1 - 1 / 2 ^ 53) = 1 - 1 / 2 ^ 53"
  "round_to_double (1 / 10) = 3602879701896397 / 2 ^ 55"
  by (simp_all add: float_defs Let_def)

text \<open>
  Differences that have at most 53 significant bits are exact; a difference that has
  more is rounded, and can reach a TTL that the exact difference stays below.
\<close>

lemma float_sub_exact_values:
  "float_sub 0 0 = 0" "float_sub 1 0 = 1" "float_sub (3 / 2) 0 = 3 / 2"
  "float_sub (5 / 2) 0 = 5 / 2" "float_sub 100 0 = 100" "float_sub (5 / 2) (3 / 2) = 1"
  by (simp_all add: float_defs Let_def)

lemma float_sub_rounded_values:
  "float_sub 2 (1 / 2 ^ 60) = 2"
  "float_sub 33555432 (1000000000001 / 1000000000) = 2 ^ 25"
  "float_sub (1 / 3) 0 = 6004799503160661 / 2 ^ 54"
  by (simp_all add: float_defs Let_def)

subsection \<open>Refill of the catalog slot\<close>

text \<open>
  Claim C4, as the code has it. With a positive TTL, a call of \<^verbatim>\<open>_get_events_cached\<close>
  that finds the slot empty or stale, and whose store query completes, returns the rows
  read and overwrites the slot with these rows and with the clock reading \<open>now\<close> taken
  at the start of the call, before the lookup and before the query; the query may take
  time, so the clock at the moment of the overwrite is \<open>now\<close> plus the duration of the
  query. A later call at clock reading \<open>t\<close> is a hit, returning the stored rows with no
  store access, exactly when the float difference \<open>t - now\<close> is below the TTL; when
  that difference is \<open>\<ge> TTL\<close> the call queries the store again and stamps the slot with
  \<open>t\<close>. The difference is the rounded one: it can equal the TTL while the exact
  difference of the two readings is smaller.
\<close>

theorem catalog_miss_stores_call_start_reading:
  assumes ttl: "0 < EVENTS_CACHE_TTL_SECONDS w"
    and miss: "events_cache_data w = None
               \<or> EVENTS_CACHE_TTL_SECONDS w \<le> float_sub (clock w) (events_cache_ts w)"
    and ok: "fault env (Execute SelectEvents) = None"
  shows "fst (get_events_cached env db w) = Inr (events_tbl (db_view db w))
     \<and> events_cache_data (snd (get_events_cached env db w)) = Some (events_tbl (db_view db w))
     \<and> events_cache_ts (snd (get_events_cached env db w)) = clock w
     \<and> clock (snd (get_events_cached env db w)) = clock w + elapsed env (Execute SelectEvents)
     \<and> trace (snd (get_events_cached env db w)) = trace w @ [Execute SelectEvents]
     \<and> (\<forall>t env2 db2.
          (float_sub t (clock w) < EVENTS_CACHE_TTL_SECONDS w \<longrightarrow>
             get_events_cached env2 db2 ((snd (get_events_cached env db w))\<lparr>clock := t\<rparr>)
               = (Inr (events_tbl (db_view db w)), (snd (get_events_cached env db w))\<lparr>clock := t\<rparr>))
          \<and> (EVENTS_CACHE_TTL_SECONDS w \<le> float_sub t (clock w)
               \<and> fault env2 (Execute SelectEvents) = None \<longrightarrow>
             trace (snd (get_events_cached env2 db2 ((snd (get_events_cached env db w))\<lparr>clock := t\<rparr>)))
               = trace w @ [Execute SelectEvents, Execute SelectEvents]
             \<and> events_cache_ts (snd (get_events_cached env2 db2 ((snd (get_events_cached env db w))\<lparr>clock := t\<rparr>)))
               = t))"
  using assms
  by (auto simp: get_events_cached_def select_events_def and_then_def attempt_def Let_def db_view_def
        split: option.splits)

text \<open>
  The instance below fills the slot at clock reading \<open>0\<close> with a query that takes one
  second, reads at \<open>1.5\<close> (a hit) and at \<open>2.5\<close> (a miss). The last two lines fill the
  slot at reading \<open>2\<^sup>-\<^sup>6\<^sup>0\<close> and read at \<open>2\<close>: the exact difference is below the TTL of \<open>2\<close>,
  the float difference is \<open>2\<close>, and the call queries the store again.
\<close>

theorem catalog_miss_stores_call_start_reading_witness:
  "0 < EVENTS_CACHE_TTL_SECONDS (process_start 2 0 fest_db)
   \<and> events_cache_data (process_start 2 0 fest_db) = None
   \<and> fault slow (Execute SelectEvents) = None
   \<and> events_cache_ts (snd (get_events_cached slow fresh_handle (process_start 2 0 fest_db))) = 0
   \<and> clock (snd (get_events_cached slow fresh_handle (process_start 2 0 fest_db))) = 1
   \<and> fst (get_events_cached quiet fresh_handle
            ((snd (get_events_cached slow fresh_handle (process_start 2 0 fest_db)))\<lparr>clock := 3/2\<rparr>))
       = Inr [(5, ''Hackathon'', 100), (6, ''Quiz'', 50)]
   \<and> events_cache_ts (snd (get_events_cached quiet fresh_handle
            ((snd (get_events_cached slow fresh_handle (process_start 2 0 fest_db)))\<lparr>clock := 5/2\<rparr>)))
       = 5/2
   \<and> 2 - 1 / 2 ^ 60 < EVENTS_CACHE_TTL_SECONDS ((process_start 2 0 fest_db)\<lparr>clock := 1 / 2 ^ 60\<rparr>)
   \<and> trace (snd (get_events_cached quiet fresh_handle
            ((snd (get_events_cached quiet fresh_handle ((process_start 2 0 fest_db)\<lparr>clock := 1 / 2 ^ 60\<rparr>)))
               \<lparr>clock := 2\<rparr>)))
       = [Execute SelectEvents, Execute SelectEvents]"
proof -
  let ?w = "process_start 2 0 fest_db"
  let ?v = "(process_start 2 0 fest_db)\<lparr>clock := 1 / 2 ^ 60\<rparr>"
  have ttl: "0 < EVENTS_CACHE_TTL_SECONDS ?w"
    and miss: "events_cache_data ?w = None
               \<or> EVENTS_CACHE_TTL_SECONDS ?w \<le> float_sub (clock ?w) (events_cache_ts ?w)"
    and none: "events_cache_data ?w = None"
    and num: "clock ?w = 0" "EVENTS_CACHE_TTL_SECONDS ?w = 2"
    by (simp_all add: process_start_def)
  have ttl': "0 < EVENTS_CACHE_TTL_SECONDS ?v"
    and miss': "events_cache_data ?v = None
                \<or> EVENTS_CACHE_TTL_SECONDS ?v \<le> float_sub (clock ?v) (events_cache_ts ?v)"
    and num': "clock ?v = 1 / 2 ^ 60" "EVENTS_CACHE_TTL_SECONDS ?v = 2" "trace ?v = []"
    by (simp_all add: process_start_def)
  have ok: "fault slow (Execute SelectEvents) = None" "elapsed slow (Execute SelectEvents) = 1"
    and ok2: "fault quiet (Execute SelectEvents) = None"
    by (simp_all add: slow_def quiet_def)
  have rows: "events_tbl (db_view fresh_handle ?w) = [(5, ''Hackathon'', 100), (6, ''Quiz'', 50)]"
    by (simp add: db_view_def fresh_handle_def process_start_def fest_db_def)
  note inst = catalog_miss_stores_call_start_reading [OF ttl miss ok(1), of fresh_handle]
  note inst' = catalog_miss_stores_call_start_reading [OF ttl' miss' ok2, of fresh_handle]
  from inst have a: "events_cache_ts (snd (get_events_cached slow fresh_handle ?w)) = 0"
    and b: "clock (snd (get_events_cached slow fresh_handle ?w)) = 1"
    using num ok by simp_all
  from inst have hit: "float_sub (3/2) (clock ?w) < EVENTS_CACHE_TTL_SECONDS ?w \<longrightarrow>
      get_events_cached quiet fresh_handle ((snd (get_events_cached slow fresh_handle ?w))\<lparr>clock := 3/2\<rparr>)
        = (Inr (events_tbl (db_view fresh_handle ?w)), (snd (get_events_cached slow fresh_handle ?w))\<lparr>clock := 3/2\<rparr>)"
    by blast
  from inst have stale: "EVENTS_CACHE_TTL_SECONDS ?w \<le> float_sub (5/2) (clock ?w)
        \<and> fault quiet (Execute SelectEvents) = None \<longrightarrow>
      events_cache_ts (snd (get_events_cached quiet fresh_handle
         ((snd (get_events_cached slow fresh_handle ?w))\<lparr>clock := 5/2\<rparr>))) = 5/2"
    by blast
  from inst' have rounded: "EVENTS_CACHE_TTL_SECONDS ?v \<le> float_sub 2 (clock ?v)
        \<and> fault quiet (Execute SelectEvents) = None \<longrightarrow>
      trace (snd (get_events_cached quiet fresh_handle
         ((snd (get_events_cached quiet fresh_handle ?v))\<lparr>clock := 2\<rparr>)))
        = trace ?v @ [Execute SelectEvents, Execute SelectEvents]"
    by blast
  from hit num rows have c: "fst (get_events_cached quiet fresh_handle
            ((snd (get_events_cached slow fresh_handle ?w))\<lparr>clock := 3/2\<rparr>))
       = Inr [(5, ''Hackathon'', 100), (6, ''Quiz'', 50)]"
    by (simp add: float_sub_exact_values)
  from stale num ok2 have d: "events_cache_ts (snd (get_events_cached quiet fresh_handle
         ((snd (get_events_cached slow fresh_handle ?w))\<lparr>clock := 5/2\<rparr>))) = 5/2"
    by (simp add: float_sub_exact_values)
  from rounded num' ok2 float_sub_rounded_values(1)
  have e: "trace (snd (get_events_cached quiet fresh_handle
         ((snd (get_events_cached quiet fresh_handle ?v))\<lparr>clock := 2\<rparr>)))
        = [Execute SelectEvents, Execute SelectEvents]"
    by simp
  have f: "2 - 1 / 2 ^ 60 < EVENTS_CACHE_TTL_SECONDS ?v"
    by (simp add: process_start_def)
  from ttl none ok(1) a b c d e f show ?thesis by simp
qed

text \<open>
  The claim as written has the stored timestamp read at the moment of the overwrite. With
  a query that takes one second, starting at clock reading \<open>0\<close>, the slot is overwritten
  when the clock reads \<open>1\<close> and the timestamp stored is \<open>0\<close>.
\<close>

theorem catalog_timestamp_counterexample:
  "events_cache_data (snd (get_events_cached slow fresh_handle (process_start 2 0 fest_db)))
     = Some [(5, ''Hackathon'', 100), (6, ''Quiz'', 50)]
   \<and> events_cache_ts (snd (get_events_cached slow fresh_handle (process_start 2 0 fest_db))) = 0
   \<and> clock (snd (get_events_cached slow fresh_handle (process_start 2 0 fest_db))) = 1
   \<and> events_cache_ts (snd (get_events_cached slow fresh_handle (process_start 2 0 fest_db)))
       \<noteq> clock (snd (get_events_cached slow fresh_handle (process_start 2 0 fest_db)))"
  by (simp add: get_events_cached_def select_events_def and_then_def attempt_def Let_def db_view_def
        slow_def fresh_handle_def process_start_def fest_db_def)

subsection \<open>Two catalog reads within the TTL\<close>

lemma count_list_snoc: "count_list (xs @ [a]) b = count_list xs b + (if a = b then 1 else 0)"
  by (induction xs) auto

text \<open>
  Claim C3, as the code has it. Take a positive TTL and two calls of
  \<^verbatim>\<open>_get_events_cached\<close> that both return rows, with nothing but the passing of time in
  between, such that the float difference between the clock reading of the second call
  and that of the first is below the TTL. Then at most one catalog query is completed
  across the two calls. If the first call was a miss, or the entry that served it is
  still within TTL of its own timestamp at the second call (again by the float
  difference), the second call is a hit: it returns the rows of the first and does
  nothing else.
\<close>

theorem catalog_two_calls_within_ttl:
  assumes ttl: "0 < EVENTS_CACHE_TTL_SECONDS w"
    and first: "get_events_cached env1 db1 w = (Inr rows1, w1)"
    and second: "get_events_cached env2 db2 (w1\<lparr>clock := now2\<rparr>) = (Inr rows2, w2)"
    and near: "float_sub now2 (clock w) < EVENTS_CACHE_TTL_SECONDS w"
  shows "catalog_queries w2 \<le> catalog_queries w + 1
     \<and> (events_cache_data w = None
          \<or> EVENTS_CACHE_TTL_SECONDS w \<le> float_sub (clock w) (events_cache_ts w)
          \<or> float_sub now2 (events_cache_ts w) < EVENTS_CACHE_TTL_SECONDS w
        \<longrightarrow> rows2 = rows1 \<and> w2 = w1\<lparr>clock := now2\<rparr>)"
proof (cases "\<exists>data. events_cache_data w = Some data
                \<and> float_sub (clock w) (events_cache_ts w) < EVENTS_CACHE_TTL_SECONDS w")
  case True
  then obtain data where d: "events_cache_data w = Some data"
    and fresh: "float_sub (clock w) (events_cache_ts w) < EVENTS_CACHE_TTL_SECONDS w" by blast
  from first ttl d fresh have w1: "w1 = w" and r1: "rows1 = data"
    by (auto simp: get_events_cached_def Let_def)
  show ?thesis
  proof (cases "float_sub now2 (events_cache_ts w) < EVENTS_CACHE_TTL_SECONDS w")
    case True
    with second ttl d w1 r1 show ?thesis
      by (auto simp: get_events_cached_def Let_def catalog_queries_def)
  next
    case False
    with second ttl d w1 fresh show ?thesis
      by (auto simp: get_events_cached_def Let_def select_events_def and_then_def attempt_def
            catalog_queries_def count_list_snoc split: option.splits)
  qed
next
  case False
  with first ttl have w1: "events_cache_data w1 = Some rows1" "events_cache_ts w1 = clock w"
      "EVENTS_CACHE_TTL_SECONDS w1 = EVENTS_CACHE_TTL_SECONDS w"
      "catalog_queries w1 = catalog_queries w + 1"
    by (auto simp: get_events_cached_def Let_def select_events_def and_then_def attempt_def
          catalog_queries_def count_list_snoc split: option.splits if_splits)
  with second ttl near show ?thesis
    by (auto simp: get_events_cached_def Let_def catalog_queries_def)
qed

theorem catalog_two_calls_within_ttl_witness:
  "0 < EVENTS_CACHE_TTL_SECONDS (process_start 2 0 fest_db)
   \<and> float_sub 1 (clock (process_start 2 0 fest_db)) < EVENTS_CACHE_TTL_SECONDS (process_start 2 0 fest_db)
   \<and> fst (get_events_cached quiet fresh_handle (process_start 2 0 fest_db))
       = Inr [(5, ''Hackathon'', 100), (6, ''Quiz'', 50)]
   \<and> fst (get_events_cached quiet fresh_handle
            ((snd (get_events_cached quiet fresh_handle (process_start 2 0 fest_db)))\<lparr>clock := 1\<rparr>))
       = Inr [(5, ''Hackathon'', 100), (6, ''Quiz'', 50)]
   \<and> catalog_queries (snd (get_events_cached quiet fresh_handle
            ((snd (get_events_cached quiet fresh_handle (process_start 2 0 fest_db)))\<lparr>clock := 1\<rparr>)))
       = 1"
proof -
  let ?w = "process_start 2 0 fest_db"
  let ?rows = "[(5, ''Hackathon'', 100), (6, ''Quiz'', 50)] :: event_row list"
  let ?w1 = "snd (get_events_cached quiet fresh_handle ?w)"
  let ?w2 = "snd (get_events_cached quiet fresh_handle (?w1\<lparr>clock := 1\<rparr>))"
  have ttl: "0 < EVENTS_CACHE_TTL_SECONDS ?w"
    and near: "float_sub 1 (clock ?w) < EVENTS_CACHE_TTL_SECONDS ?w"
    and none: "events_cache_data ?w = None"
    by (simp_all add: process_start_def float_sub_exact_values)
  have r1: "fst (get_events_cached quiet fresh_handle ?w) = Inr ?rows"
    and q1: "catalog_queries ?w1 = 1"
    by (simp_all add: get_events_cached_def select_events_def and_then_def attempt_def Let_def
          db_view_def quiet_def fresh_handle_def process_start_def fest_db_def catalog_queries_def)
  obtain rows2 where second: "get_events_cached quiet fresh_handle (?w1\<lparr>clock := 1\<rparr>) = (Inr rows2, ?w2)"
    by (cases "fst (get_events_cached quiet fresh_handle (?w1\<lparr>clock := 1\<rparr>))")
       (auto simp: get_events_cached_def select_events_def and_then_def attempt_def Let_def
          quiet_def prod_eq_iff split: option.splits if_splits)
  have first: "get_events_cached quiet fresh_handle ?w = (Inr ?rows, ?w1)"
    using r1 by (simp add: prod_eq_iff)
  from catalog_two_calls_within_ttl [OF ttl first second near] none
  have same: "rows2 = ?rows" and w2: "?w2 = ?w1\<lparr>clock := 1\<rparr>"
    by simp_all
  from arg_cong [OF second, of fst] same
  have r2: "fst (get_events_cached quiet fresh_handle (?w1\<lparr>clock := 1\<rparr>)) = Inr ?rows"
    by simp
  from w2 q1 have q2: "catalog_queries ?w2 = 1"
    by (simp add: catalog_queries_def)
  from ttl near r1 r2 q2 show ?thesis by simp
qed

text \<open>
  The claim as written promises identical data for any two calls less than TTL apart. In
  the state below the slot was filled at time \<open>0\<close> from an empty table and the TTL is
  \<open>2\<close>: the call at \<open>1.5\<close> is a hit and returns no rows; the call at \<open>2.5\<close>, one second
  later and with the store untouched in between, finds the entry expired and returns
  the two events now in the store.
\<close>

theorem catalog_two_calls_counterexample:
  "0 < EVENTS_CACHE_TTL_SECONDS catalog_cached_then_event_added
   \<and> 5/2 - clock catalog_cached_then_event_added < EVENTS_CACHE_TTL_SECONDS catalog_cached_then_event_added
   \<and> float_sub (5/2) (clock catalog_cached_then_event_added)
       < EVENTS_CACHE_TTL_SECONDS catalog_cached_then_event_added
   \<and> get_events_cached quiet fresh_handle catalog_cached_then_event_added
       = (Inr [], catalog_cached_then_event_added)
   \<and> fst (get_events_cached quiet fresh_handle (catalog_cached_then_event_added\<lparr>clock := 5/2\<rparr>))
       = Inr [(5, ''Hackathon'', 100), (6, ''Quiz'', 50)]"
  by (simp add: catalog_cached_then_event_added_def get_events_cached_def select_events_def
        and_then_def attempt_def Let_def db_view_def quiet_def fresh_handle_def process_start_def
        fest_db_def empty_db_def float_sub_exact_values)

section \<open>What each function leaves alone\<close>

lemmas store_defs = attempt_def sqlite3_connect_def db_view_def execute_pragma_def select_events_def
  join_my_events_def select_my_events_def execute_insert_user_def execute_insert_registration_def
  commit_def close_def

lemmas control_defs = returns_def raises_def and_then_def try_finally_def try_except_def Let_def

lemmas code_defs = init_db_settings_def get_db_def get_events_cached_def get_my_events_cached_def
  invalidate_my_events_cache_def register_def events_def register_event_def my_events_def

lemmas concrete_defs = quiet_def failing_def slow_def process_start_def empty_db_def fest_db_def
  fresh_handle_def alice_cached_def

lemma get_db_frame:
  assumes "get_db env w = (r, w')"
  shows "EVENTS_CACHE_TTL_SECONDS w' = EVENTS_CACHE_TTL_SECONDS w"
    and "events_cache_ts w' = events_cache_ts w"
    and "events_cache_data w' = events_cache_data w"
    and "MY_EVENTS_CACHE_TTL_SECONDS w' = MY_EVENTS_CACHE_TTL_SECONDS w"
    and "my_events_cache w' = my_events_cache w"
    and "store w' = store w"
    and "db_initialized w \<Longrightarrow> db_initialized w'"
    and "db_initialized w \<Longrightarrow> tuning_applied w' = tuning_applied w"
    and "r = Inr c \<Longrightarrow> uncommitted c = None"
    and "count_list (trace w') Close = count_list (trace w) Close"
    and "r = Inr c \<Longrightarrow> count_list (trace w') Connect = Suc (count_list (trace w) Connect)"
  using assms
  by (auto simp: get_db_def and_then_def sqlite3_connect_def init_db_settings_def execute_pragma_def
        attempt_def Let_def returns_def tuning_applied_def
        split: option.splits prod.splits sum.splits if_splits)

lemma get_events_cached_frame:
  assumes "get_events_cached env db w = (r, w')"
  shows "EVENTS_CACHE_TTL_SECONDS w' = EVENTS_CACHE_TTL_SECONDS w"
    and "MY_EVENTS_CACHE_TTL_SECONDS w' = MY_EVENTS_CACHE_TTL_SECONDS w"
    and "my_events_cache w' = my_events_cache w"
    and "store w' = store w"
    and "db_initialized w' = db_initialized w"
    and "tuning_applied w' = tuning_applied w"
    and "count_list (trace w') Close = count_list (trace w) Close"
    and "count_list (trace w') Connect = count_list (trace w) Connect"
  using assms
  by (auto simp: get_events_cached_def select_events_def and_then_def attempt_def Let_def
        tuning_applied_def split: option.splits prod.splits sum.splits if_splits)

lemma get_my_events_cached_frame:
  assumes "get_my_events_cached env db u w = (r, w')"
  shows "EVENTS_CACHE_TTL_SECONDS w' = EVENTS_CACHE_TTL_SECONDS w"
    and "MY_EVENTS_CACHE_TTL_SECONDS w' = MY_EVENTS_CACHE_TTL_SECONDS w"
    and "events_cache_data w' = events_cache_data w"
    and "events_cache_ts w' = events_cache_ts w"
    and "v \<noteq> u \<Longrightarrow> my_events_cache w' v = my_events_cache w v"
    and "my_events_cache w u \<noteq> None \<Longrightarrow> my_events_cache w' u \<noteq> None"
    and "store w' = store w"
    and "db_initialized w' = db_initialized w"
    and "tuning_applied w' = tuning_applied w"
    and "count_list (trace w') Close = count_list (trace w) Close"
    and "count_list (trace w') Connect = count_list (trace w) Connect"
  using assms
  by (auto simp: get_my_events_cached_def select_my_events_def and_then_def attempt_def Let_def
        tuning_applied_def split: option.splits prod.splits sum.splits if_splits)

section \<open>The two writing handlers, once a handle is acquired\<close>

lemma register_event_no_handle:
  assumes "e \<noteq> 404" and "get_db env w = (Inl a, w1)"
  shows "register_event env e u w = (Inl a, w1)"
  using assms by (simp add: register_event_def and_then_def returns_def)

lemma register_event_with_handle:
  assumes "e \<noteq> 404" and g: "get_db env w = (Inr db, w1)"
  shows "register_event env e u w
         = (case fault env (Execute (InsertRegistration u e)) of
              Some x \<Rightarrow> (Inl x, w1\<lparr>clock := clock w1 + elapsed env (Execute (InsertRegistration u e)),
                                   trace := trace w1 @ [Close]\<rparr>)
            | None \<Rightarrow>
              (case fault env Commit of
                 Some x \<Rightarrow> (Inl x, w1\<lparr>clock := clock w1 + elapsed env (Execute (InsertRegistration u e)) + elapsed env Commit,
                                      trace := trace w1 @ [Execute (InsertRegistration u e), Close]\<rparr>)
               | None \<Rightarrow> (Inr (RedirectResponse (''/my-events?user='' @ u) 302),
                           invalidate_my_events_cache u
                             (w1\<lparr>clock := clock w1 + elapsed env (Execute (InsertRegistration u e)) + elapsed env Commit,
                                 store := (store w1)\<lparr>registrations_tbl := registrations_tbl (store w1) @ [(u, e)]\<rparr>,
                                 trace := trace w1 @ [Execute (InsertRegistration u e), Commit, Close]\<rparr>))))"
proof -
  from g have "uncommitted db = None" by (auto dest: get_db_frame(9))
  with assms show ?thesis
    by (auto simp: register_event_def try_finally_def and_then_def execute_insert_registration_def
          commit_def attempt_def close_def Let_def returns_def db_view_def split: option.splits)
qed

lemma register_no_handle:
  assumes "get_db env w = (Inl a, w1)"
  shows "register env u p w = (Inl a, w1)"
  using assms by (simp add: register_def and_then_def)

lemma register_with_handle:
  assumes g: "get_db env w = (Inr db, w1)"
  shows "register env u p w
         = (if u \<in> set (map fst (users_tbl (store w1)))
               \<or> fault env (Execute (InsertUser u p)) \<noteq> None
            then (Inr (HTMLResponse ''Username already exists. Try a different one.''),
                  w1\<lparr>clock := clock w1 + elapsed env (Execute (InsertUser u p)),
                     trace := trace w1 @ [Close]\<rparr>)
            else if fault env Commit \<noteq> None
            then (Inr (HTMLResponse ''Username already exists. Try a different one.''),
                  w1\<lparr>clock := clock w1 + elapsed env (Execute (InsertUser u p)) + elapsed env Commit,
                     trace := trace w1 @ [Execute (InsertUser u p), Close]\<rparr>)
            else (Inr (RedirectResponse ''/login'' 302),
                  w1\<lparr>clock := clock w1 + elapsed env (Execute (InsertUser u p)) + elapsed env Commit,
                     store := (store w1)\<lparr>users_tbl := users_tbl (store w1) @ [(u, p)]\<rparr>,
                     trace := trace w1 @ [Execute (InsertUser u p), Commit, Close]\<rparr>))"
proof -
  from g have "uncommitted db = None" by (auto dest: get_db_frame(9))
  with assms show ?thesis
    by (auto simp: register_def try_finally_def try_except_def and_then_def execute_insert_user_def
          commit_def attempt_def close_def Let_def returns_def db_view_def split: option.splits)
qed

section \<open>Properties of the writing handlers\<close>

subsection \<open>Write, then invalidate\<close>

text \<open>
  Claim C2. Whenever \<^verbatim>\<open>register_event\<close> raises, the per-user mapping is as before the
  call. Once the handle is acquired (and the event id is not 404): an error raised by
  the insert, or by the commit after a successful insert, is the error the handler
  raises, and the committed store is unchanged; when both succeed there is an
  intermediate state \<open>wc\<close> in which the new row is already committed, the handle is
  closed and the mapping is still untouched, and the handler returns the redirect in the
  state obtained by invalidating the user's entry in \<open>wc\<close>.
\<close>

theorem register_event_write_then_invalidate:
  "(\<forall>x. fst (register_event env e u w) = Inl x \<longrightarrow>
        my_events_cache (snd (register_event env e u w)) = my_events_cache w)
   \<and> (\<forall>db w1. e \<noteq> 404 \<and> get_db env w = (Inr db, w1) \<longrightarrow>
        (\<forall>x. fault env (Execute (InsertRegistration u e)) = Some x \<longrightarrow>
              fst (register_event env e u w) = Inl x
              \<and> store (snd (register_event env e u w)) = store w)
      \<and> (\<forall>x. fault env (Execute (InsertRegistration u e)) = None \<and> fault env Commit = Some x \<longrightarrow>
              fst (register_event env e u w) = Inl x
              \<and> store (snd (register_event env e u w)) = store w)
      \<and> (fault env (Execute (InsertRegistration u e)) = None \<and> fault env Commit = None \<longrightarrow>
           (\<exists>wc. store wc = (store w)\<lparr>registrations_tbl := registrations_tbl (store w) @ [(u, e)]\<rparr>
                 \<and> my_events_cache wc = my_events_cache w
                 \<and> trace wc = trace w1 @ [Execute (InsertRegistration u e), Commit, Close]
                 \<and> register_event env e u w
                     = (Inr (RedirectResponse (''/my-events?user='' @ u) 302),
                        invalidate_my_events_cache u wc))))"
proof -
  have failed: "my_events_cache (snd (register_event env e u w)) = my_events_cache w"
    if "fst (register_event env e u w) = Inl x" for x
  proof (cases "e = 404")
    case True
    then show ?thesis by (simp add: register_event_def and_then_def raises_def)
  next
    case False
    obtain r w1 where g: "get_db env w = (r, w1)" by (cases "get_db env w")
    show ?thesis
    proof (cases r)
      case (Inl a)
      with g False get_db_frame(5)[OF g] show ?thesis
        by (simp add: register_event_no_handle)
    next
      case (Inr db)
      with that g False get_db_frame(5)[OF g] show ?thesis
        by (auto simp: register_event_with_handle split: option.splits)
    qed
  qed
  have handle: "(\<forall>x. fault env (Execute (InsertRegistration u e)) = Some x \<longrightarrow>
              fst (register_event env e u w) = Inl x
              \<and> store (snd (register_event env e u w)) = store w)
      \<and> (\<forall>x. fault env (Execute (InsertRegistration u e)) = None \<and> fault env Commit = Some x \<longrightarrow>
              fst (register_event env e u w) = Inl x
              \<and> store (snd (register_event env e u w)) = store w)
      \<and> (fault env (Execute (InsertRegistration u e)) = None \<and> fault env Commit = None \<longrightarrow>
           (\<exists>wc. store wc = (store w)\<lparr>registrations_tbl := registrations_tbl (store w) @ [(u, e)]\<rparr>
                 \<and> my_events_cache wc = my_events_cache w
                 \<and> trace wc = trace w1 @ [Execute (InsertRegistration u e), Commit, Close]
                 \<and> register_event env e u w
                     = (Inr (RedirectResponse (''/my-events?user='' @ u) 302),
                        invalidate_my_events_cache u wc)))"
    if ne: "e \<noteq> 404" and g: "get_db env w = (Inr db, w1)" for db w1
  proof (intro conjI allI impI)
    fix x assume "fault env (Execute (InsertRegistration u e)) = Some x"
    with get_db_frame(6)[OF g]
    show "fst (register_event env e u w) = Inl x" "store (snd (register_event env e u w)) = store w"
      by (simp_all add: register_event_with_handle [OF ne g])
  next
    fix x assume "fault env (Execute (InsertRegistration u e)) = None \<and> fault env Commit = Some x"
    with get_db_frame(6)[OF g]
    show "fst (register_event env e u w) = Inl x" "store (snd (register_event env e u w)) = store w"
      by (simp_all add: register_event_with_handle [OF ne g])
  next
    assume f: "fault env (Execute (InsertRegistration u e)) = None \<and> fault env Commit = None"
    let ?wc = "w1\<lparr>clock := clock w1 + elapsed env (Execute (InsertRegistration u e)) + elapsed env Commit,
                 store := (store w1)\<lparr>registrations_tbl := registrations_tbl (store w1) @ [(u, e)]\<rparr>,
                 trace := trace w1 @ [Execute (InsertRegistration u e), Commit, Close]\<rparr>"
    from f get_db_frame(5,6)[OF g]
    have "store ?wc = (store w)\<lparr>registrations_tbl := registrations_tbl (store w) @ [(u, e)]\<rparr>
        \<and> my_events_cache ?wc = my_events_cache w
        \<and> trace ?wc = trace w1 @ [Execute (InsertRegistration u e), Commit, Close]
        \<and> register_event env e u w
             = (Inr (RedirectResponse (''/my-events?user='' @ u) 302), invalidate_my_events_cache u ?wc)"
      by (simp add: register_event_with_handle [OF ne g])
    then show "\<exists>wc. store wc = (store w)\<lparr>registrations_tbl := registrations_tbl (store w) @ [(u, e)]\<rparr>
                 \<and> my_events_cache wc = my_events_cache w
                 \<and> trace wc = trace w1 @ [Execute (InsertRegistration u e), Commit, Close]
                 \<and> register_event env e u w
                     = (Inr (RedirectResponse (''/my-events?user='' @ u) 302),
                        invalidate_my_events_cache u wc)"
      by blast
  qed
  from failed handle show ?thesis by blast
qed

theorem register_event_write_then_invalidate_witness:
  "fst (register_event (failing Commit OperationalError) 5 ''alice'' alice_cached) = Inl OperationalError
   \<and> my_events_cache (snd (register_event (failing Commit OperationalError) 5 ''alice'' alice_cached))
       = my_events_cache alice_cached
   \<and> store (snd (register_event (failing Commit OperationalError) 5 ''alice'' alice_cached))
       = store alice_cached
   \<and> fst (register_event (failing (Execute (InsertRegistration ''alice'' 5)) OperationalError)
            5 ''alice'' alice_cached) = Inl OperationalError
   \<and> fst (register_event quiet 5 ''alice'' alice_cached)
       = Inr (RedirectResponse ''/my-events?user=alice'' 302)
   \<and> my_events_cache (snd (register_event quiet 5 ''alice'' alice_cached)) ''alice'' = None
   \<and> registrations_tbl (store (snd (register_event quiet 5 ''alice'' alice_cached)))
       = [(''alice'', 6), (''alice'', 5)]"
proof -
  let ?cf = "failing Commit OperationalError"
  let ?xf = "failing (Execute (InsertRegistration ''alice'' 5)) OperationalError"
  have ne: "(5::int) \<noteq> 404" by simp
  have "fst (get_db ?cf alice_cached) = Inr fresh_handle"
    by (simp add: code_defs control_defs store_defs concrete_defs)
  then have g1: "(5::int) \<noteq> 404 \<and> get_db ?cf alice_cached = (Inr fresh_handle, snd (get_db ?cf alice_cached))"
    by (simp add: prod_eq_iff)
  have "fst (get_db ?xf alice_cached) = Inr fresh_handle"
    by (simp add: code_defs control_defs store_defs concrete_defs)
  then have g2: "(5::int) \<noteq> 404 \<and> get_db ?xf alice_cached = (Inr fresh_handle, snd (get_db ?xf alice_cached))"
    by (simp add: prod_eq_iff)
  have "fst (get_db quiet alice_cached) = Inr fresh_handle"
    by (simp add: code_defs control_defs store_defs concrete_defs)
  then have g3: "(5::int) \<noteq> 404 \<and> get_db quiet alice_cached = (Inr fresh_handle, snd (get_db quiet alice_cached))"
    by (simp add: prod_eq_iff)
  have f1: "fault ?cf (Execute (InsertRegistration ''alice'' 5)) = None \<and> fault ?cf Commit = Some OperationalError"
    and f2: "fault ?xf (Execute (InsertRegistration ''alice'' 5)) = Some OperationalError"
    and f3: "fault quiet (Execute (InsertRegistration ''alice'' 5)) = None \<and> fault quiet Commit = None"
    by (simp_all add: failing_def quiet_def)
  note t1 = register_event_write_then_invalidate [of ?cf 5 "''alice''" alice_cached]
  note t2 = register_event_write_then_invalidate [of ?xf 5 "''alice''" alice_cached]
  note t3 = register_event_write_then_invalidate [of quiet 5 "''alice''" alice_cached]
  from t1 g1 f1 have a: "fst (register_event ?cf 5 ''alice'' alice_cached) = Inl OperationalError"
    and c: "store (snd (register_event ?cf 5 ''alice'' alice_cached)) = store alice_cached"
    by blast+
  from t1 a have b: "my_events_cache (snd (register_event ?cf 5 ''alice'' alice_cached))
       = my_events_cache alice_cached"
    by blast
  from t2 g2 f2 have d: "fst (register_event ?xf 5 ''alice'' alice_cached) = Inl OperationalError"
    by blast
  from t3 g3 f3 obtain wc where
    wc: "store wc = (store alice_cached)\<lparr>registrations_tbl := registrations_tbl (store alice_cached) @ [(''alice'', 5)]\<rparr>"
      "register_event quiet 5 ''alice'' alice_cached
         = (Inr (RedirectResponse (''/my-events?user='' @ ''alice'') 302), invalidate_my_events_cache ''alice'' wc)"
    by blast
  from wc have e: "fst (register_event quiet 5 ''alice'' alice_cached)
       = Inr (RedirectResponse ''/my-events?user=alice'' 302)"
    and f: "my_events_cache (snd (register_event quiet 5 ''alice'' alice_cached)) ''alice'' = None"
    and g: "registrations_tbl (store (snd (register_event quiet 5 ''alice'' alice_cached)))
       = [(''alice'', 6), (''alice'', 5)]"
    by (simp_all add: invalidate_my_events_cache_def concrete_defs)
  from a b c d e f g show ?thesis by simp
qed

subsection \<open>Account registration never raises from the insert\<close>

text \<open>
  Claim C10. In \<^verbatim>\<open>register\<close> the only error that reaches the caller is one raised while
  acquiring the handle. Once the handle is acquired, the handler answers with the
  message \<open>Username already exists. Try a different one.\<close> whenever the insert or the
  commit fails, be it the uniqueness violation or any error the store raises, and with
  the redirect to \<open>/login\<close> otherwise; on every path the last store operation is the
  closing of the handle and no more handles are open after the call than before.
\<close>

theorem register_catches_every_insert_failure:
  "(\<forall>x. fst (register env u p w) = Inl x \<longrightarrow> fst (get_db env w) = Inl x)
   \<and> (\<forall>db w1. get_db env w = (Inr db, w1) \<longrightarrow>
        fst (register env u p w)
          = Inr (if u \<in> set (map fst (users_tbl (store w)))
                    \<or> fault env (Execute (InsertUser u p)) \<noteq> None
                    \<or> fault env Commit \<noteq> None
                 then HTMLResponse ''Username already exists. Try a different one.''
                 else RedirectResponse ''/login'' 302)
        \<and> last (trace (snd (register env u p w))) = Close
        \<and> open_handles (snd (register env u p w)) = open_handles w)"
proof -
  have a: "fst (get_db env w) = Inl x" if "fst (register env u p w) = Inl x" for x
  proof -
    obtain r w1 where g: "get_db env w = (r, w1)" by (cases "get_db env w")
    show ?thesis
    proof (cases r)
      case (Inl a)
      with g that show ?thesis by (simp add: register_no_handle)
    next
      case (Inr db)
      with g that show ?thesis by (simp add: register_with_handle split: if_splits)
    qed
  qed
  have b: "fst (register env u p w)
          = Inr (if u \<in> set (map fst (users_tbl (store w)))
                    \<or> fault env (Execute (InsertUser u p)) \<noteq> None
                    \<or> fault env Commit \<noteq> None
                 then HTMLResponse ''Username already exists. Try a different one.''
                 else RedirectResponse ''/login'' 302)
        \<and> last (trace (snd (register env u p w))) = Close
        \<and> open_handles (snd (register env u p w)) = open_handles w"
    if g: "get_db env w = (Inr db, w1)" for db w1
    using get_db_frame(6,10)[OF g] get_db_frame(11)[OF g refl]
    by (simp add: register_with_handle [OF g] open_handles_def)
  from a b show ?thesis by blast
qed

theorem register_catches_every_insert_failure_witness:
  "fst (get_db quiet (process_start 2 0 fest_db)) = Inr fresh_handle
   \<and> fst (register quiet ''alice'' ''x'' (process_start 2 0 fest_db))
       = Inr (HTMLResponse ''Username already exists. Try a different one.'')
   \<and> fst (register (failing Commit OperationalError) ''bob'' ''x'' (process_start 2 0 fest_db))
       = Inr (HTMLResponse ''Username already exists. Try a different one.'')
   \<and> fst (register quiet ''bob'' ''x'' (process_start 2 0 fest_db))
       = Inr (RedirectResponse ''/login'' 302)
   \<and> last (trace (snd (register (failing Commit OperationalError) ''bob'' ''x'' (process_start 2 0 fest_db)))) = Close
   \<and> open_handles (snd (register quiet ''bob'' ''x'' (process_start 2 0 fest_db))) = 0"
proof -
  let ?w = "process_start 2 0 fest_db"
  let ?cf = "failing Commit OperationalError"
  have h1: "fst (get_db quiet ?w) = Inr fresh_handle"
    by (simp add: code_defs control_defs store_defs concrete_defs)
  then have g1: "get_db quiet ?w = (Inr fresh_handle, snd (get_db quiet ?w))"
    by (simp add: prod_eq_iff)
  have "fst (get_db ?cf ?w) = Inr fresh_handle"
    by (simp add: code_defs control_defs store_defs concrete_defs)
  then have g2: "get_db ?cf ?w = (Inr fresh_handle, snd (get_db ?cf ?w))"
    by (simp add: prod_eq_iff)
  have users: "set (map fst (users_tbl (store ?w))) = {''alice''}"
    and oh: "open_handles ?w = 0"
    by (simp_all add: concrete_defs open_handles_def)
  have f: "fault quiet (Execute (InsertUser ''alice'' ''x'')) = None"
    "fault quiet (Execute (InsertUser ''bob'' ''x'')) = None" "fault quiet Commit = None"
    "fault ?cf Commit = Some OperationalError"
    by (simp_all add: quiet_def failing_def)
  from register_catches_every_insert_failure
         [of quiet "''alice''" "''x''" ?w, THEN conjunct2, rule_format, OF g1] users f
  have a: "fst (register quiet ''alice'' ''x'' ?w)
       = Inr (HTMLResponse ''Username already exists. Try a different one.'')"
    by simp
  from register_catches_every_insert_failure
         [of ?cf "''bob''" "''x''" ?w, THEN conjunct2, rule_format, OF g2] users f
  have b: "fst (register ?cf ''bob'' ''x'' ?w)
       = Inr (HTMLResponse ''Username already exists. Try a different one.'')"
    and c: "last (trace (snd (register ?cf ''bob'' ''x'' ?w))) = Close"
    by simp_all
  from register_catches_every_insert_failure
         [of quiet "''bob''" "''x''" ?w, THEN conjunct2, rule_format, OF g1] users f oh
  have d: "fst (register quiet ''bob'' ''x'' ?w) = Inr (RedirectResponse ''/login'' 302)"
    and e: "open_handles (snd (register quiet ''bob'' ''x'' ?w)) = 0"
    by simp_all
  from h1 a b c d e show ?thesis by simp
qed

subsection \<open>A registration is visible to the next read\<close>

text \<open>
  Claim C1, as the code has it. After a call of \<^verbatim>\<open>register_event\<close> for user \<open>u\<close> and
  event id \<open>e\<close> that returns, a call of \<^verbatim>\<open>_get_my_events_cached\<close> for \<open>u\<close> whose query
  completes, on a handle without uncommitted work, at any clock reading and for any TTL
  setting, returns the join evaluated on the store that holds the new row: the rows
  returned before the registration followed by name and fee of each event with id \<open>e\<close>.
  In particular the result contains name and fee of the event registered for whenever
  an event with id \<open>e\<close> is in the events table.
\<close>

theorem registration_visible_after_register_event:
  assumes reg: "register_event env e u w = (Inr r, w')"
    and handle: "uncommitted db = None"
    and ok: "fault env2 (Execute (SelectMyEvents u)) = None"
  shows "fst (get_my_events_cached env2 db u (w'\<lparr>clock := t\<rparr>)) = Inr (join_my_events (store w') u)
     \<and> join_my_events (store w') u
         = join_my_events (store w) u
           @ map (\<lambda>(eid, name, fee). (name, fee))
               (filter (\<lambda>(eid, name, fee). eid = e) (events_tbl (store w)))
     \<and> (\<forall>name fee. (e, name, fee) \<in> set (events_tbl (store w))
           \<longrightarrow> (name, fee) \<in> set (join_my_events (store w') u))"
proof -
  from reg have ne: "e \<noteq> 404"
    by (auto simp: register_event_def and_then_def raises_def)
  obtain r0 w1 where g: "get_db env w = (r0, w1)" by (cases "get_db env w")
  from reg ne g obtain c where r0: "r0 = Inr c"
    by (cases r0) (auto simp: register_event_no_handle)
  from reg have st: "store w' = (store w)\<lparr>registrations_tbl := registrations_tbl (store w) @ [(u, e)]\<rparr>"
    and cache: "my_events_cache w' u = None"
    using get_db_frame(6)[OF g] g r0 ne
    by (auto simp: register_event_with_handle invalidate_my_events_cache_def split: option.splits)
  from cache handle ok
  have first: "fst (get_my_events_cached env2 db u (w'\<lparr>clock := t\<rparr>)) = Inr (join_my_events (store w') u)"
    by (auto simp: get_my_events_cached_def select_my_events_def and_then_def attempt_def Let_def
          db_view_def)
  have second: "join_my_events (store w') u
         = join_my_events (store w) u
           @ map (\<lambda>(eid, name, fee). (name, fee))
               (filter (\<lambda>(eid, name, fee). eid = e) (events_tbl (store w)))"
    by (simp add: st join_my_events_def cong: if_cong)
  have third: "(name, fee) \<in> set (join_my_events (store w') u)"
    if "(e, name, fee) \<in> set (events_tbl (store w))" for name fee
    using that by (force simp: second)
  from first second third show ?thesis by blast
qed

theorem registration_visible_after_register_event_witness:
  "fst (register_event quiet 5 ''alice'' alice_cached)
     = Inr (RedirectResponse ''/my-events?user=alice'' 302)
   \<and> uncommitted fresh_handle = None
   \<and> fault quiet (Execute (SelectMyEvents ''alice'')) = None
   \<and> (5, ''Hackathon'', 100) \<in> set (events_tbl (store alice_cached))
   \<and> fst (get_my_events_cached quiet fresh_handle ''alice''
            ((snd (register_event quiet 5 ''alice'' alice_cached))\<lparr>clock := 1\<rparr>))
       = Inr [(''Quiz'', 50), (''Hackathon'', 100)]"
proof -
  let ?w' = "snd (register_event quiet 5 ''alice'' alice_cached)"
  have r: "fst (register_event quiet 5 ''alice'' alice_cached)
             = Inr (RedirectResponse ''/my-events?user=alice'' 302)"
    by (simp add: code_defs control_defs store_defs concrete_defs)
  then have reg: "register_event quiet 5 ''alice'' alice_cached
                   = (Inr (RedirectResponse ''/my-events?user=alice'' 302), ?w')"
    by (simp add: prod_eq_iff)
  have handle: "uncommitted fresh_handle = None" by (simp add: fresh_handle_def)
  have ok: "fault quiet (Execute (SelectMyEvents ''alice'')) = None" by (simp add: quiet_def)
  have before: "join_my_events (store alice_cached) ''alice'' = [(''Quiz'', 50)]"
    and ev: "events_tbl (store alice_cached) = [(5, ''Hackathon'', 100), (6, ''Quiz'', 50)]"
    by (simp_all add: join_my_events_def concrete_defs)
  from registration_visible_after_register_event [OF reg handle ok, of 1] before ev r handle ok
  show ?thesis by simp
qed

text \<open>
  The claim as written covers every event id. The registrations table has no foreign
  key and the handler checks nothing, so registering for the id 7, which no event
  carries, succeeds and commits the row; the inner join drops it, and the read after the
  registration returns what the read before it returned.
\<close>

theorem registration_of_unknown_event_counterexample:
  "fst (register_event quiet 7 ''alice'' (process_start 2 60 fest_db))
     = Inr (RedirectResponse ''/my-events?user=alice'' 302)
   \<and> registrations_tbl (store (snd (register_event quiet 7 ''alice'' (process_start 2 60 fest_db))))
     = [(''alice'', 6), (''alice'', 7)]
   \<and> fst (get_my_events_cached quiet fresh_handle ''alice'' (process_start 2 60 fest_db))
     = Inr [(''Quiz'', 50)]
   \<and> fst (get_my_events_cached quiet fresh_handle ''alice''
            (snd (register_event quiet 7 ''alice'' (process_start 2 60 fest_db))))
     = Inr [(''Quiz'', 50)]"
  by (simp add: code_defs control_defs store_defs concrete_defs)

section \<open>Runs: what a step leaves alone\<close>

lemma events_frame:
  assumes "events env user w = (r, w')"
  shows "my_events_cache w' = my_events_cache w"
    and "db_initialized w \<Longrightarrow> db_initialized w' \<and> tuning_applied w' = tuning_applied w"
proof -
  obtain r0 w1 where g: "get_db env w = (r0, w1)" by (cases "get_db env w")
  show "my_events_cache w' = my_events_cache w"
    using assms g get_db_frame(5)[OF g]
    by (cases r0)
       (auto simp: events_def and_then_def try_finally_def returns_def close_def
          split: prod.splits sum.splits dest: get_events_cached_frame(3))
  show "db_initialized w' \<and> tuning_applied w' = tuning_applied w" if "db_initialized w"
    using assms g get_db_frame(7,8)[OF g that]
    by (cases r0)
       (auto simp: events_def and_then_def try_finally_def returns_def close_def tuning_applied_def
          split: prod.splits sum.splits dest: get_events_cached_frame(5,6))
qed

lemma my_events_frame:
  assumes "my_events env user w = (r, w')"
  shows "v \<noteq> user \<Longrightarrow> my_events_cache w' v = my_events_cache w v"
    and "my_events_cache w user \<noteq> None \<Longrightarrow> my_events_cache w' user \<noteq> None"
    and "db_initialized w \<Longrightarrow> db_initialized w' \<and> tuning_applied w' = tuning_applied w"
proof -
  obtain r0 w1 where g: "get_db env w = (r0, w1)" by (cases "get_db env w")
  show "my_events_cache w' v = my_events_cache w v" if "v \<noteq> user"
    using assms g get_db_frame(5)[OF g] that
    by (cases r0)
       (auto simp: my_events_def and_then_def try_finally_def returns_def close_def
          split: prod.splits sum.splits dest: get_my_events_cached_frame(5))
  show "my_events_cache w' user \<noteq> None" if "my_events_cache w user \<noteq> None"
    using assms g get_db_frame(5)[OF g] that
    by (cases r0)
       (auto simp: my_events_def and_then_def try_finally_def returns_def close_def
          split: prod.splits sum.splits dest: get_my_events_cached_frame(6))
  show "db_initialized w' \<and> tuning_applied w' = tuning_applied w" if "db_initialized w"
    using assms g get_db_frame(7,8)[OF g that]
    by (cases r0)
       (auto simp: my_events_def and_then_def try_finally_def returns_def close_def tuning_applied_def
          split: prod.splits sum.splits dest: get_my_events_cached_frame(8,9))
qed

lemma register_frame:
  assumes "register env u p w = (r, w')"
  shows "my_events_cache w' = my_events_cache w"
    and "db_initialized w \<Longrightarrow> db_initialized w' \<and> tuning_applied w' = tuning_applied w"
proof -
  obtain r0 w1 where g: "get_db env w = (r0, w1)" by (cases "get_db env w")
  show "my_events_cache w' = my_events_cache w"
    using assms g get_db_frame(5)[OF g]
    by (cases r0) (auto simp: register_no_handle register_with_handle split: if_splits)
  show "db_initialized w' \<and> tuning_applied w' = tuning_applied w" if "db_initialized w"
    using assms g get_db_frame(7,8)[OF g that]
    by (cases r0) (auto simp: register_no_handle register_with_handle tuning_applied_def split: if_splits)
qed

lemma register_event_frame:
  assumes "register_event env e u w = (r, w')"
  shows "v \<noteq> u \<Longrightarrow> my_events_cache w' v = my_events_cache w v"
    and "db_initialized w \<Longrightarrow> db_initialized w' \<and> tuning_applied w' = tuning_applied w"
proof -
  obtain r0 w1 where g: "get_db env w = (r0, w1)" by (cases "get_db env w")
  show "my_events_cache w' v = my_events_cache w v" if "v \<noteq> u"
  proof (cases "e = 404")
    case True
    with assms show ?thesis by (simp add: register_event_def and_then_def raises_def)
  next
    case False
    with assms g get_db_frame(5)[OF g] that show ?thesis
      by (cases r0)
         (auto simp: register_event_no_handle register_event_with_handle invalidate_my_events_cache_def
            split: option.splits)
  qed
  show "db_initialized w' \<and> tuning_applied w' = tuning_applied w" if "db_initialized w"
  proof (cases "e = 404")
    case True
    with assms that show ?thesis by (auto simp: register_event_def and_then_def raises_def)
  next
    case False
    with assms g get_db_frame(7,8)[OF g that] show ?thesis
      by (cases r0)
         (auto simp: register_event_no_handle register_event_with_handle invalidate_my_events_cache_def
            tuning_applied_def split: option.splits)
  qed
qed

lemma step_keeps_flag:
  assumes "db_initialized w"
  shows "db_initialized (step r w) \<and> tuning_applied (step r w) = tuning_applied w"
proof (cases r)
  case (Sleep d)
  with assms show ?thesis by (simp add: tuning_applied_def)
next
  case (Acquire env)
  with assms get_db_frame(7,8)[of env w "fst (get_db env w)" "snd (get_db env w)"]
  show ?thesis by simp
next
  case (GetCatalog env db)
  with assms get_events_cached_frame(5,6)[of env db w "fst (get_events_cached env db w)" "snd (get_events_cached env db w)"]
  show ?thesis by simp
next
  case (GetMyEvents env db u)
  with assms get_my_events_cached_frame(8,9)[of env db u w "fst (get_my_events_cached env db u w)" "snd (get_my_events_cached env db u w)"]
  show ?thesis by simp
next
  case (EventsPage env user)
  with assms events_frame(2)[of env user w "fst (events env user w)" "snd (events env user w)"]
  show ?thesis by simp
next
  case (MyEventsPage env user)
  with assms my_events_frame(3)[of env user w "fst (my_events env user w)" "snd (my_events env user w)"]
  show ?thesis by simp
next
  case (RegisterUser env u p)
  with assms register_frame(2)[of env u p w "fst (register env u p w)" "snd (register env u p w)"]
  show ?thesis by simp
next
  case (RegisterEvent env e u)
  with assms register_event_frame(2)[of env e u w "fst (register_event env e u w)" "snd (register_event env e u w)"]
  show ?thesis by simp
next
  case (Invalidate u)
  with assms show ?thesis by (simp add: invalidate_my_events_cache_def tuning_applied_def)
qed

lemma run_keeps_flag:
  "db_initialized w \<Longrightarrow> db_initialized (run rs w) \<and> tuning_applied (run rs w) = tuning_applied w"
proof (induction rs arbitrary: w)
  case Nil
  then show ?case by simp
next
  case (Cons r rs)
  from step_keeps_flag [OF Cons.prems, of r] Cons.IH [of "step r w"]
  show ?case by simp
qed

lemma step_keeps_entry:
  assumes "\<not> invalidates u r" and "my_events_cache w u \<noteq> None"
  shows "my_events_cache (step r w) u \<noteq> None"
proof (cases r)
  case (Sleep d)
  with assms show ?thesis by simp
next
  case (Acquire env)
  with assms get_db_frame(5)[of env w "fst (get_db env w)" "snd (get_db env w)"]
  show ?thesis by simp
next
  case (GetCatalog env db)
  with assms get_events_cached_frame(3)[of env db w "fst (get_events_cached env db w)" "snd (get_events_cached env db w)"]
  show ?thesis by simp
next
  case (GetMyEvents env db v)
  with assms
    get_my_events_cached_frame(5)[of env db v w "fst (get_my_events_cached env db v w)" "snd (get_my_events_cached env db v w)" u]
    get_my_events_cached_frame(6)[of env db v w "fst (get_my_events_cached env db v w)" "snd (get_my_events_cached env db v w)"]
  show ?thesis by (cases "u = v") simp_all
next
  case (EventsPage env user)
  with assms events_frame(1)[of env user w "fst (events env user w)" "snd (events env user w)"]
  show ?thesis by simp
next
  case (MyEventsPage env user)
  with assms
    my_events_frame(1)[of env user w "fst (my_events env user w)" "snd (my_events env user w)" u]
    my_events_frame(2)[of env user w "fst (my_events env user w)" "snd (my_events env user w)"]
  show ?thesis by (cases "u = user") simp_all
next
  case (RegisterUser env v p)
  with assms register_frame(1)[of env v p w "fst (register env v p w)" "snd (register env v p w)"]
  show ?thesis by simp
next
  case (RegisterEvent env e v)
  with assms register_event_frame(1)[of env e v w "fst (register_event env e v w)" "snd (register_event env e v w)" u]
  show ?thesis by simp
next
  case (Invalidate v)
  with assms show ?thesis by (simp add: invalidate_my_events_cache_def)
qed

lemma step_keeps_value:
  assumes "\<not> invalidates u r" and "\<not> reads_my_events u r"
  shows "my_events_cache (step r w) u = my_events_cache w u"
proof (cases r)
  case (Sleep d)
  with assms show ?thesis by simp
next
  case (Acquire env)
  with assms get_db_frame(5)[of env w "fst (get_db env w)" "snd (get_db env w)"]
  show ?thesis by simp
next
  case (GetCatalog env db)
  with assms get_events_cached_frame(3)[of env db w "fst (get_events_cached env db w)" "snd (get_events_cached env db w)"]
  show ?thesis by simp
next
  case (GetMyEvents env db v)
  with assms
    get_my_events_cached_frame(5)[of env db v w "fst (get_my_events_cached env db v w)" "snd (get_my_events_cached env db v w)" u]
  show ?thesis by simp
next
  case (EventsPage env user)
  with assms events_frame(1)[of env user w "fst (events env user w)" "snd (events env user w)"]
  show ?thesis by simp
next
  case (MyEventsPage env user)
  with assms
    my_events_frame(1)[of env user w "fst (my_events env user w)" "snd (my_events env user w)" u]
  show ?thesis by simp
next
  case (RegisterUser env v p)
  with assms register_frame(1)[of env v p w "fst (register env v p w)" "snd (register env v p w)"]
  show ?thesis by simp
next
  case (RegisterEvent env e v)
  with assms register_event_frame(1)[of env e v w "fst (register_event env e v w)" "snd (register_event env e v w)" u]
  show ?thesis by simp
next
  case (Invalidate v)
  with assms show ?thesis by (simp add: invalidate_my_events_cache_def)
qed

lemma run_keeps_entry:
  "\<forall>r \<in> set rs. \<not> invalidates u r \<Longrightarrow> my_events_cache w u \<noteq> None
     \<Longrightarrow> my_events_cache (run rs w) u \<noteq> None"
proof (induction rs arbitrary: w)
  case Nil
  then show ?case by simp
next
  case (Cons r rs)
  from Cons.prems have "my_events_cache (step r w) u \<noteq> None"
    by (simp add: step_keeps_entry)
  with Cons.IH [of "step r w"] Cons.prems show ?case by simp
qed

lemma run_keeps_value:
  "\<forall>r \<in> set rs. \<not> invalidates u r \<and> \<not> reads_my_events u r
     \<Longrightarrow> my_events_cache (run rs w) u = my_events_cache w u"
proof (induction rs arbitrary: w)
  case Nil
  then show ?case by simp
next
  case (Cons r rs)
  from Cons.prems have "my_events_cache (step r w) u = my_events_cache w u"
    by (simp add: step_keeps_value)
  with Cons.IH [of "step r w"] Cons.prems show ?case by simp
qed

lemma first_get_db:
  assumes "\<not> db_initialized w" and "fst (get_db env w) = Inr c"
  shows "trace (snd (get_db env w))
           = trace w @ [Connect, Execute PragmaJournalModeWAL, Execute PragmaSynchronousNormal,
                        Execute PragmaTempStoreMemory, Execute PragmaBusyTimeout]"
    and "db_initialized (snd (get_db env w))"
  using assms
  by (auto simp: get_db_def and_then_def sqlite3_connect_def init_db_settings_def execute_pragma_def
        attempt_def Let_def returns_def split: option.splits prod.splits sum.splits if_splits)

lemma get_db_sets_flag:
  assumes "\<not> db_initialized w"
  shows "db_initialized (snd (get_db env w))
           \<longleftrightarrow> fault env Connect = None
               \<and> fault env (Execute PragmaJournalModeWAL) = None
               \<and> fault env (Execute PragmaSynchronousNormal) = None
               \<and> fault env (Execute PragmaTempStoreMemory) = None"
    and "db_initialized (snd (get_db env w))
           \<longleftrightarrow> tuning_applied (snd (get_db env w))
                 = tuning_applied w @ [Execute PragmaJournalModeWAL, Execute PragmaSynchronousNormal,
                                       Execute PragmaTempStoreMemory]"
    and "fst (get_db env w) = Inr c \<Longrightarrow> db_initialized (snd (get_db env w))"
  using assms
  by (auto simp: get_db_def and_then_def sqlite3_connect_def init_db_settings_def execute_pragma_def
        attempt_def Let_def returns_def tuning_applied_def
        split: option.splits prod.splits sum.splits if_splits)

lemma stale_entry_refill:
  assumes "my_events_cache w u = Some (ts, data)"
    and "0 < MY_EVENTS_CACHE_TTL_SECONDS w"
    and "MY_EVENTS_CACHE_TTL_SECONDS w \<le> float_sub (clock w) ts"
  shows "fault env (Execute (SelectMyEvents u)) = None \<Longrightarrow>
           my_events_cache (snd (get_my_events_cached env db u w))
             = (my_events_cache w)(u \<mapsto> (clock w, join_my_events (db_view db w) u))"
    and "fault env (Execute (SelectMyEvents u)) \<noteq> None \<Longrightarrow>
           my_events_cache (snd (get_my_events_cached env db u w)) = my_events_cache w"
  using assms
  by (auto simp: get_my_events_cached_def select_my_events_def and_then_def attempt_def Let_def
        db_view_def split: option.splits)

lemma fresh_entry_hit:
  assumes "my_events_cache w u = Some (ts, data)"
    and "0 < MY_EVENTS_CACHE_TTL_SECONDS w"
    and "float_sub (clock w) ts < MY_EVENTS_CACHE_TTL_SECONDS w"
  shows "get_my_events_cached env db u w = (Inr data, w)"
  using assms by (simp add: get_my_events_cached_def Let_def)

section \<open>Properties of runs\<close>

subsection \<open>One-time tuning\<close>

text \<open>
  Claim C6, as the code has it. A call of \<^verbatim>\<open>get_db\<close> that finds the flag unset sets it
  exactly when the connect and the three tuning statements complete, that is, exactly
  when the call has completed the three tuning statements, in order and once each;
  whether the busy-timeout statement that follows raises makes no difference. In
  particular a call that returns a handle has completed the connect, the three tuning
  statements and the busy-timeout statement, and has set the flag. Once the flag is
  set, over every run of the process (further \<^verbatim>\<open>get_db\<close> calls and every handler,
  whatever the store does) it stays set and no tuning statement is completed again. So
  over a run that starts with a \<^verbatim>\<open>get_db\<close> call that returns a handle, each tuning
  statement is completed exactly once, in that first call.
\<close>

theorem tuning_applied_once:
  "(\<not> db_initialized w \<longrightarrow>
        (db_initialized (snd (get_db env w))
           \<longleftrightarrow> fault env Connect = None
               \<and> fault env (Execute PragmaJournalModeWAL) = None
               \<and> fault env (Execute PragmaSynchronousNormal) = None
               \<and> fault env (Execute PragmaTempStoreMemory) = None)
      \<and> (db_initialized (snd (get_db env w))
           \<longleftrightarrow> tuning_applied (snd (get_db env w))
                 = tuning_applied w @ [Execute PragmaJournalModeWAL, Execute PragmaSynchronousNormal,
                                       Execute PragmaTempStoreMemory])
      \<and> (\<forall>c. fst (get_db env w) = Inr c \<longrightarrow>
            db_initialized (snd (get_db env w))
            \<and> trace (snd (get_db env w))
                = trace w @ [Connect, Execute PragmaJournalModeWAL, Execute PragmaSynchronousNormal,
                             Execute PragmaTempStoreMemory, Execute PragmaBusyTimeout])
      \<and> (db_initialized (snd (get_db env w)) \<longrightarrow>
            (\<forall>rs. db_initialized (run rs (snd (get_db env w)))
               \<and> tuning_applied (run rs (snd (get_db env w)))
                   = tuning_applied w @ [Execute PragmaJournalModeWAL, Execute PragmaSynchronousNormal,
                                         Execute PragmaTempStoreMemory])))
   \<and> (db_initialized w \<longrightarrow>
        (\<forall>rs. db_initialized (run rs w) \<and> tuning_applied (run rs w) = tuning_applied w))"
proof -
  have a: "(db_initialized (snd (get_db env w))
           \<longleftrightarrow> fault env Connect = None
               \<and> fault env (Execute PragmaJournalModeWAL) = None
               \<and> fault env (Execute PragmaSynchronousNormal) = None
               \<and> fault env (Execute PragmaTempStoreMemory) = None)
      \<and> (db_initialized (snd (get_db env w))
           \<longleftrightarrow> tuning_applied (snd (get_db env w))
                 = tuning_applied w @ [Execute PragmaJournalModeWAL, Execute PragmaSynchronousNormal,
                                       Execute PragmaTempStoreMemory])
      \<and> (\<forall>c. fst (get_db env w) = Inr c \<longrightarrow>
            db_initialized (snd (get_db env w))
            \<and> trace (snd (get_db env w))
                = trace w @ [Connect, Execute PragmaJournalModeWAL, Execute PragmaSynchronousNormal,
                             Execute PragmaTempStoreMemory, Execute PragmaBusyTimeout])
      \<and> (db_initialized (snd (get_db env w)) \<longrightarrow>
            (\<forall>rs. db_initialized (run rs (snd (get_db env w)))
               \<and> tuning_applied (run rs (snd (get_db env w)))
                   = tuning_applied w @ [Execute PragmaJournalModeWAL, Execute PragmaSynchronousNormal,
                                         Execute PragmaTempStoreMemory]))"
    if unset: "\<not> db_initialized w"
  proof (intro conjI allI impI)
    show "db_initialized (snd (get_db env w))
           \<longleftrightarrow> fault env Connect = None
               \<and> fault env (Execute PragmaJournalModeWAL) = None
               \<and> fault env (Execute PragmaSynchronousNormal) = None
               \<and> fault env (Execute PragmaTempStoreMemory) = None"
      by (rule get_db_sets_flag(1) [OF unset])
    show "db_initialized (snd (get_db env w))
           \<longleftrightarrow> tuning_applied (snd (get_db env w))
                 = tuning_applied w @ [Execute PragmaJournalModeWAL, Execute PragmaSynchronousNormal,
                                       Execute PragmaTempStoreMemory]"
      by (rule get_db_sets_flag(2) [OF unset])
  next
    fix c assume "fst (get_db env w) = Inr c"
    with first_get_db [OF unset]
    show "db_initialized (snd (get_db env w))"
      and "trace (snd (get_db env w))
                = trace w @ [Connect, Execute PragmaJournalModeWAL, Execute PragmaSynchronousNormal,
                             Execute PragmaTempStoreMemory, Execute PragmaBusyTimeout]"
      by simp_all
  next
    fix rs assume set: "db_initialized (snd (get_db env w))"
    with get_db_sets_flag(2) [OF unset, of env]
    have "tuning_applied (snd (get_db env w))
            = tuning_applied w @ [Execute PragmaJournalModeWAL, Execute PragmaSynchronousNormal,
                                  Execute PragmaTempStoreMemory]"
      by simp
    with run_keeps_flag [OF set, of rs]
    show "db_initialized (run rs (snd (get_db env w)))"
      and "tuning_applied (run rs (snd (get_db env w)))
             = tuning_applied w @ [Execute PragmaJournalModeWAL, Execute PragmaSynchronousNormal,
                                   Execute PragmaTempStoreMemory]"
      by simp_all
  qed
  from a run_keeps_flag show ?thesis by blast
qed

theorem tuning_applied_once_witness:
  "\<not> db_initialized (process_start 2 0 fest_db)
   \<and> fst (get_db quiet (process_start 2 0 fest_db)) = Inr fresh_handle
   \<and> db_initialized (snd (get_db quiet (process_start 2 0 fest_db)))
   \<and> tuning_applied (run [Acquire quiet, Acquire slow] (snd (get_db quiet (process_start 2 0 fest_db))))
       = [Execute PragmaJournalModeWAL, Execute PragmaSynchronousNormal, Execute PragmaTempStoreMemory]
   \<and> tuning_applied (run [Acquire quiet] (snd (get_db quiet (process_start 2 0 fest_db))))
       = tuning_applied (snd (get_db quiet (process_start 2 0 fest_db)))
   \<and> fst (get_db (failing (Execute PragmaBusyTimeout) OperationalError) (process_start 2 0 fest_db))
       = Inl OperationalError
   \<and> db_initialized (snd (get_db (failing (Execute PragmaBusyTimeout) OperationalError) (process_start 2 0 fest_db)))
   \<and> tuning_applied
        (run [Acquire quiet]
           (snd (get_db (failing (Execute PragmaBusyTimeout) OperationalError) (process_start 2 0 fest_db))))
       = [Execute PragmaJournalModeWAL, Execute PragmaSynchronousNormal, Execute PragmaTempStoreMemory]
   \<and> \<not> db_initialized
         (snd (get_db (failing (Execute PragmaTempStoreMemory) OperationalError) (process_start 2 0 fest_db)))"
proof -
  let ?w = "process_start 2 0 fest_db"
  let ?w1 = "snd (get_db quiet ?w)"
  let ?bf = "failing (Execute PragmaBusyTimeout) OperationalError"
  let ?tf = "failing (Execute PragmaTempStoreMemory) OperationalError"
  have a: "\<not> db_initialized ?w" and t: "tuning_applied ?w = []"
    by (simp_all add: process_start_def tuning_applied_def)
  have b: "fst (get_db quiet ?w) = Inr fresh_handle"
    by (simp add: code_defs control_defs store_defs concrete_defs)
  have fq: "fault quiet Connect = None" "fault quiet (Execute PragmaJournalModeWAL) = None"
    "fault quiet (Execute PragmaSynchronousNormal) = None"
    "fault quiet (Execute PragmaTempStoreMemory) = None"
    and fb: "fault ?bf Connect = None" "fault ?bf (Execute PragmaJournalModeWAL) = None"
    "fault ?bf (Execute PragmaSynchronousNormal) = None"
    "fault ?bf (Execute PragmaTempStoreMemory) = None"
    and ft: "fault ?tf (Execute PragmaTempStoreMemory) = Some OperationalError"
    by (simp_all add: quiet_def failing_def)
  have raised: "fst (get_db ?bf ?w) = Inl OperationalError"
    by (simp add: code_defs control_defs store_defs concrete_defs)
  from tuning_applied_once [of ?w quiet] a b
  have c: "db_initialized ?w1"
    and d: "tuning_applied (run [Acquire quiet, Acquire slow] ?w1)
       = tuning_applied ?w @ [Execute PragmaJournalModeWAL, Execute PragmaSynchronousNormal,
                              Execute PragmaTempStoreMemory]"
    by blast+
  from tuning_applied_once [of ?w1 quiet] c
  have e: "tuning_applied (run [Acquire quiet] ?w1) = tuning_applied ?w1"
    by blast
  from tuning_applied_once [of ?w ?bf] a fb
  have f: "db_initialized (snd (get_db ?bf ?w))"
    by blast
  from tuning_applied_once [of ?w ?bf] a f
  have g: "tuning_applied (run [Acquire quiet] (snd (get_db ?bf ?w)))
       = tuning_applied ?w @ [Execute PragmaJournalModeWAL, Execute PragmaSynchronousNormal,
                              Execute PragmaTempStoreMemory]"
    by blast
  from tuning_applied_once [of ?w ?tf] a ft
  have h: "\<not> db_initialized (snd (get_db ?tf ?w))"
    by auto
  from a b c d e raised f g h t show ?thesis by simp
qed

text \<open>
  The claim as written covers every sequence of calls. The flag is set only after
  \<^verbatim>\<open>_init_db_settings\<close> has returned: when the second tuning statement of the first call
  raises, the call raises with the flag still unset, and the next call, which returns
  a handle, runs the tuning statements from the start, so the journal-mode statement is
  completed twice.
\<close>

theorem tuning_reapplied_counterexample:
  "fst (get_db (failing (Execute PragmaSynchronousNormal) OperationalError) (process_start 2 0 fest_db))
     = Inl OperationalError
   \<and> \<not> db_initialized
         (snd (get_db (failing (Execute PragmaSynchronousNormal) OperationalError) (process_start 2 0 fest_db)))
   \<and> fst (get_db quiet
            (snd (get_db (failing (Execute PragmaSynchronousNormal) OperationalError) (process_start 2 0 fest_db))))
     = Inr fresh_handle
   \<and> tuning_applied
        (run [Acquire (failing (Execute PragmaSynchronousNormal) OperationalError), Acquire quiet]
           (process_start 2 0 fest_db))
     = [Execute PragmaJournalModeWAL,
        Execute PragmaJournalModeWAL, Execute PragmaSynchronousNormal, Execute PragmaTempStoreMemory]"
  by (simp add: code_defs control_defs store_defs concrete_defs tuning_applied_def)

subsection \<open>No eviction on expiry\<close>

text \<open>
  Claim C8. Over every run of the process, whatever time passes and whatever the store
  does: a username that has an entry in the per-user mapping still has one at the end,
  unless some step of the run called \<^verbatim>\<open>_invalidate_my_events_cache\<close> for that username
  (directly, or inside \<^verbatim>\<open>register_event\<close>); and the entry of a username (or its
  absence) is exactly as at the start if, in addition, no step called
  \<^verbatim>\<open>_get_my_events_cached\<close> for that username. Expiry alone never removes or changes
  an entry. What a call of \<^verbatim>\<open>_get_my_events_cached\<close> does to an existing entry, with a
  positive TTL: while the entry is fresh the call returns its rows and changes nothing;
  once it is stale, a call whose query completes overwrites it with the clock reading
  of the call and the rows read, and a call whose query raises leaves the stale entry in
  place.
\<close>

theorem entry_leaves_only_by_invalidation:
  "(u \<in> dom (my_events_cache w) \<and> (\<forall>r \<in> set rs. \<not> invalidates u r)
      \<longrightarrow> u \<in> dom (my_events_cache (run rs w)))
   \<and> ((\<forall>r \<in> set rs. \<not> invalidates u r \<and> \<not> reads_my_events u r)
      \<longrightarrow> my_events_cache (run rs w) u = my_events_cache w u)
   \<and> (\<forall>ts data. my_events_cache w u = Some (ts, data) \<and> 0 < MY_EVENTS_CACHE_TTL_SECONDS w
         \<longrightarrow>
         (float_sub (clock w) ts < MY_EVENTS_CACHE_TTL_SECONDS w \<longrightarrow>
            get_my_events_cached env db u w = (Inr data, w))
       \<and> (MY_EVENTS_CACHE_TTL_SECONDS w \<le> float_sub (clock w) ts
            \<and> fault env (Execute (SelectMyEvents u)) = None \<longrightarrow>
            my_events_cache (step (GetMyEvents env db u) w)
              = (my_events_cache w)(u \<mapsto> (clock w, join_my_events (db_view db w) u)))
       \<and> (MY_EVENTS_CACHE_TTL_SECONDS w \<le> float_sub (clock w) ts
            \<and> fault env (Execute (SelectMyEvents u)) \<noteq> None \<longrightarrow>
            my_events_cache (step (GetMyEvents env db u) w) = my_events_cache w))"
  using run_keeps_entry [of rs u w] run_keeps_value [of rs u w]
    stale_entry_refill [of w u _ _ env db] fresh_entry_hit [of w u _ _ env db]
  by (auto simp: domIff)

theorem entry_leaves_only_by_invalidation_witness:
  "''alice'' \<in> dom (my_events_cache alice_cached)
   \<and> \<not> invalidates ''alice'' (RegisterEvent quiet 5 ''bob'')
   \<and> \<not> reads_my_events ''alice'' (Invalidate ''bob'')
   \<and> my_events_cache
        (run [Sleep 100, EventsPage quiet ''bob'', RegisterEvent quiet 5 ''bob'', Invalidate ''bob'']
           alice_cached) ''alice''
       = Some (0, [(''Quiz'', 50)])
   \<and> \<not> invalidates ''alice'' (MyEventsPage quiet ''alice'')
   \<and> ''alice'' \<in> dom (my_events_cache (run [Sleep 100, MyEventsPage quiet ''alice''] alice_cached))
   \<and> my_events_cache (run [Sleep 100] alice_cached) ''alice'' = Some (0, [(''Quiz'', 50)])
   \<and> MY_EVENTS_CACHE_TTL_SECONDS (run [Sleep 100] alice_cached)
        \<le> float_sub (clock (run [Sleep 100] alice_cached)) 0
   \<and> my_events_cache (run [Sleep 100, GetMyEvents quiet fresh_handle ''alice''] alice_cached) ''alice''
       = Some (100, [(''Quiz'', 50)])
   \<and> my_events_cache
        (run [Sleep 100,
              GetMyEvents (failing (Execute (SelectMyEvents ''alice'')) OperationalError) fresh_handle ''alice'']
           alice_cached) ''alice''
       = Some (0, [(''Quiz'', 50)])
   \<and> float_sub (clock (run [Sleep 10] alice_cached)) 0
        < MY_EVENTS_CACHE_TTL_SECONDS (run [Sleep 10] alice_cached)
   \<and> get_my_events_cached quiet fresh_handle ''alice'' (run [Sleep 10] alice_cached)
       = (Inr [(''Quiz'', 50)], run [Sleep 10] alice_cached)"
proof -
  let ?rs = "[Sleep 100, EventsPage quiet ''bob'', RegisterEvent quiet 5 ''bob'', Invalidate ''bob'']"
  let ?qs = "[Sleep 100, MyEventsPage quiet ''alice'']"
  let ?late = "run [Sleep 100] alice_cached"
  let ?soon = "run [Sleep 10] alice_cached"
  let ?qf = "failing (Execute (SelectMyEvents ''alice'')) OperationalError"
  have a: "''alice'' \<in> dom (my_events_cache alice_cached)"
    and v: "my_events_cache alice_cached ''alice'' = Some (0, [(''Quiz'', 50)])"
    by (simp_all add: alice_cached_def process_start_def)
  have b: "\<forall>r \<in> set ?rs. \<not> invalidates ''alice'' r \<and> \<not> reads_my_events ''alice'' r"
    and c: "\<forall>r \<in> set ?qs. \<not> invalidates ''alice'' r"
    and s: "\<forall>r \<in> set [Sleep 100]. \<not> invalidates ''alice'' r \<and> \<not> reads_my_events ''alice'' r"
      "\<forall>r \<in> set [Sleep 10]. \<not> invalidates ''alice'' r \<and> \<not> reads_my_events ''alice'' r"
    by simp_all
  from entry_leaves_only_by_invalidation [of "''alice''" alice_cached ?rs] b v
  have d: "my_events_cache (run ?rs alice_cached) ''alice'' = Some (0, [(''Quiz'', 50)])"
    by simp
  from entry_leaves_only_by_invalidation [of "''alice''" alice_cached ?qs] a c
  have e: "''alice'' \<in> dom (my_events_cache (run ?qs alice_cached))"
    by blast
  from entry_leaves_only_by_invalidation [of "''alice''" alice_cached "[Sleep 100]"] s(1) v
  have late: "my_events_cache ?late ''alice'' = Some (0, [(''Quiz'', 50)])"
    by simp
  from entry_leaves_only_by_invalidation [of "''alice''" alice_cached "[Sleep 10]"] s(2) v
  have soon: "my_events_cache ?soon ''alice'' = Some (0, [(''Quiz'', 50)])"
    by simp
  have ttl: "0 < MY_EVENTS_CACHE_TTL_SECONDS ?late" "0 < MY_EVENTS_CACHE_TTL_SECONDS ?soon"
    and stale: "MY_EVENTS_CACHE_TTL_SECONDS ?late \<le> float_sub (clock ?late) 0"
    and fresh: "float_sub (clock ?soon) 0 < MY_EVENTS_CACHE_TTL_SECONDS ?soon"
    by (simp_all add: alice_cached_def process_start_def float_defs Let_def)
  have fq: "fault quiet (Execute (SelectMyEvents ''alice'')) = None"
    and ff: "fault ?qf (Execute (SelectMyEvents ''alice'')) \<noteq> None"
    by (simp_all add: quiet_def failing_def)
  have rows: "join_my_events (db_view fresh_handle ?late) ''alice'' = [(''Quiz'', 50)]"
    and clk: "clock ?late = 100"
    by (simp_all add: join_my_events_def db_view_def concrete_defs)
  from entry_leaves_only_by_invalidation [of "''alice''" ?late "[]" quiet fresh_handle]
    late ttl(1) stale fq
  have "my_events_cache (step (GetMyEvents quiet fresh_handle ''alice'') ?late)
          = (my_events_cache ?late)(''alice'' \<mapsto> (clock ?late, join_my_events (db_view fresh_handle ?late) ''alice''))"
    by blast
  with rows clk
  have f: "my_events_cache (run [Sleep 100, GetMyEvents quiet fresh_handle ''alice''] alice_cached) ''alice''
       = Some (100, [(''Quiz'', 50)])"
    by simp
  from entry_leaves_only_by_invalidation [of "''alice''" ?late "[]" ?qf fresh_handle]
    late ttl(1) stale ff
  have "my_events_cache (step (GetMyEvents ?qf fresh_handle ''alice'') ?late) = my_events_cache ?late"
    by blast
  with late
  have g: "my_events_cache (run [Sleep 100, GetMyEvents ?qf fresh_handle ''alice''] alice_cached) ''alice''
       = Some (0, [(''Quiz'', 50)])"
    by simp
  from entry_leaves_only_by_invalidation [of "''alice''" ?soon "[]" quiet fresh_handle]
    soon ttl(2) fresh
  have h: "get_my_events_cached quiet fresh_handle ''alice'' ?soon = (Inr [(''Quiz'', 50)], ?soon)"
    by blast
  from a d e late stale f g fresh h show ?thesis by simp
qed

end
